theory Spec2Isabelle
  imports Complex_Main "HOL-Library.Char_ord" "HOL-Library.List_Lexorder"
begin

section \<open>Text model\<close>

text \<open>
  Python strings are sequences of code points. The embedding takes the code points
  U+0000..U+00FF, one \<^typ>\<open>char\<close> each, so that \<^typ>\<open>string\<close> is a Python
  \<^verbatim>\<open>str\<close> over that range. The character classes below are the ones the
  \<^verbatim>\<open>re\<close> module and \<^verbatim>\<open>str\<close> use on that range.
\<close>

definition code_point :: "char \<Rightarrow> nat" where
  "code_point c = of_char c"

text \<open>The class \<^verbatim>\<open>\w\<close> of a \<^verbatim>\<open>str\<close> pattern: alphanumeric or underscore.\<close>

definition is_word_char :: "char \<Rightarrow> bool" where
  "is_word_char c =
     (let n = code_point c in
        (48 \<le> n \<and> n \<le> 57) \<or> (65 \<le> n \<and> n \<le> 90) \<or> n = 95 \<or> (97 \<le> n \<and> n \<le> 122) \<or>
        n = 170 \<or> n = 178 \<or> n = 179 \<or> n = 181 \<or> n = 185 \<or> n = 186 \<or>
        (188 \<le> n \<and> n \<le> 190) \<or> (192 \<le> n \<and> n \<le> 214) \<or>
        (216 \<le> n \<and> n \<le> 246) \<or> (248 \<le> n \<and> n \<le> 255))"

text \<open>\<^verbatim>\<open>str.lower\<close> on one code point; \<^verbatim>\<open>re.IGNORECASE\<close> compares these.\<close>

definition lower_char :: "char \<Rightarrow> char" where
  "lower_char c =
     (let n = code_point c in
        if (65 \<le> n \<and> n \<le> 90) \<or> (192 \<le> n \<and> n \<le> 222 \<and> n \<noteq> 215)
        then char_of (n + 32) else c)"

definition lower :: "string \<Rightarrow> string" where
  "lower s = map lower_char s"

text \<open>\<^verbatim>\<open>str.isspace\<close>, and \<^verbatim>\<open>str.strip()\<close> with no argument.\<close>

definition is_space :: "char \<Rightarrow> bool" where
  "is_space c =
     (let n = code_point c in
        (9 \<le> n \<and> n \<le> 13) \<or> (28 \<le> n \<and> n \<le> 32) \<or> n = 133 \<or> n = 160)"

definition strip :: "string \<Rightarrow> string" where
  "strip s = rev (dropWhile is_space (rev (dropWhile is_space s)))"

text \<open>\<^verbatim>\<open>sep.join(parts)\<close>.\<close>

fun join :: "string \<Rightarrow> string list \<Rightarrow> string" where
  "join sep [] = []"
| "join sep [p] = p"
| "join sep (p # q # ps) = p @ sep @ join sep (q # ps)"

text \<open>\<^verbatim>\<open>needle in haystack\<close> on strings.\<close>

definition starts_with :: "string \<Rightarrow> string \<Rightarrow> bool" where
  "starts_with s pre = (take (length pre) s = pre)"

fun contains :: "string \<Rightarrow> string \<Rightarrow> bool" where
  "contains [] needle = (needle = [])"
| "contains (c # cs) needle = (starts_with (c # cs) needle \<or> contains cs needle)"

section \<open>Term matcher (scan\_species\_mentions.py)\<close>

definition SEARCH_CATEGORIES :: "(string \<times> string list) list" where
  "SEARCH_CATEGORIES =
    [(''marine_mammals'',
       [''dugong'', ''dolphin'', ''whale'', ''manatee'', ''porpoise'', ''cetacean'',
        ''bottlenose'', ''spinner'', ''humpback'', ''brydes'', ''bryde'', ''minke'', ''orca'',
        ''indo-pacific'', ''pantropical'', ''rissos'', ''false killer'']),
     (''sharks_rays'',
       [''shark'', ''ray'', ''manta'', ''stingray'', ''guitarfish'', ''sawfish'', ''hammerhead'',
        ''whale shark'', ''tiger shark'', ''reef shark'', ''blacktip'', ''whitetip'',
        ''eagle ray'', ''mobula'', ''leopard shark'', ''nurse shark'', ''silky shark'',
        ''thresher'', ''oceanic whitetip'']),
     (''reptiles'',
       [''turtle'', ''hawksbill'', ''loggerhead'', ''green turtle'', ''leatherback'',
        ''olive ridley'', ''sea snake'', ''sea turtle'']),
     (''fish'',
       [''grouper'', ''parrotfish'', ''snapper'', ''barracuda'', ''tuna'', ''trevally'',
        ''fusilier'', ''anthias'', ''clownfish'', ''moray'', ''napoleonfish'', ''napoleon'',
        ''bumphead'', ''sweetlips'', ''emperor'', ''rabbitfish'', ''surgeonfish'',
        ''wrasse'', ''damselfish'', ''butterflyfish'', ''angelfish'', ''goby'', ''blenny'',
        ''pufferfish'', ''triggerfish'', ''lionfish'', ''scorpionfish'']),
     (''birds'',
       [''osprey'', ''falcon'', ''sooty falcon'', ''eagle'', ''tern'', ''gull'', ''heron'',
        ''cormorant'', ''pelican'', ''booby'', ''frigatebird'', ''flamingo'', ''plover'',
        ''sandpiper'', ''egret'', ''shearwater'', ''petrel'', ''tropicbird'', ''raptor'',
        ''sooty gull'', ''white-eyed gull'', ''crab plover'', ''reef heron'']),
     (''invertebrates_habitat'',
       [''coral'', ''seagrass'', ''sea grass'', ''sponge'', ''urchin'', ''starfish'',
        ''sea cucumber'', ''octopus'', ''squid'', ''cuttlefish'', ''jellyfish'',
        ''crab'', ''lobster'', ''shrimp'', ''giant clam'', ''triton'', ''nudibranch'',
        ''anemone'', ''bryozoan'', ''hydroid'', ''tunicate'', ''mangrove'', ''algae'']),
     (''survey_types'',
       [''survey'', ''transect'', ''quadrat'', ''monitoring'', ''assessment'', ''census'',
        ''sighting'', ''observation'', ''encounter'', ''stranding'', ''nesting'',
        ''tagging'', ''satellite tag'', ''acoustic'', ''photo-id'', ''photo id'',
        ''biopsy'', ''genetic'', ''sample'', ''capture'', ''recapture'', ''telemetry'',
        ''drone'', ''aerial'', ''boat survey'', ''dive survey'', ''snorkel'',
        ''BRUV'', ''baited remote'', ''camera trap'', ''ROV'', ''AUV'',
        ''benthic'', ''pelagic'', ''intertidal'', ''subtidal'',
        ''baseline'', ''impact'', ''EIA'', ''environmental impact'']),
     (''places'',
       [''NEOM'', ''Sharma'', ''Gayal'', ''Sindalah'', ''Magna'',
        ''Aqaba'', ''Gulf of Aqaba'', ''Tiran'', ''Sanafir'',
        ''Red Sea'', ''Farasan'', ''Yanbu'', ''Jeddah'', ''Thuwal'', ''Rabigh'',
        ''Al Wajh'', ''Umluj'', ''Duba'', ''Haql'', ''Tabuk'',
        ''island'', ''reef'', ''lagoon'', ''bay'', ''coast'', ''offshore'']),
     (''data_types'',
       [''GPS'', ''coordinate'', ''latitude'', ''longitude'', ''waypoint'', ''track'',
        ''depth'', ''temperature'', ''salinity'', ''chlorophyll'', ''turbidity'',
        ''abundance'', ''density'', ''biomass'', ''count'', ''frequency'',
        ''size'', ''length'', ''weight'', ''measurement'',
        ''behaviour'', ''behavior'', ''feeding'', ''breeding'', ''migration'',
        ''habitat'', ''substrate'', ''bathymetry'', ''geomorphology'']),
     (''conservation'',
       [''protected'', ''MPA'', ''marine protected'', ''sanctuary'', ''reserve'',
        ''endangered'', ''threatened'', ''vulnerable'', ''IUCN'', ''CITES'',
        ''conservation'', ''restoration'', ''rehabilitation'', ''management'',
        ''impact'', ''disturbance'', ''pollution'', ''debris'', ''plastic'',
        ''bycatch'', ''fishery'', ''fishing'', ''boat strike'', ''collision''])]"

text \<open>
  The pattern \<^verbatim>\<open>r'\b' + re.escape(term) + r's?\b'\<close> compiled with
  \<^verbatim>\<open>re.IGNORECASE\<close>. \<^verbatim>\<open>\b\<close> holds at a position when exactly one of
  the characters before and after it is a word character (a missing character counts
  as a non-word character); the escaped term is matched literally up to case; the
  optional \<^verbatim>\<open>s\<close> is tried first and given back when the match would fail.
\<close>

definition word_boundary :: "string \<Rightarrow> nat \<Rightarrow> bool" where
  "word_boundary text i =
     ((0 < i \<and> i \<le> length text \<and> is_word_char (text ! (i - 1))) \<noteq>
      (i < length text \<and> is_word_char (text ! i)))"

definition literal_at :: "string \<Rightarrow> string \<Rightarrow> nat \<Rightarrow> bool" where
  "literal_at lit text i =
     (i + length lit \<le> length text \<and> lower (take (length lit) (drop i text)) = lower lit)"

definition match_at :: "string \<Rightarrow> string \<Rightarrow> nat \<Rightarrow> bool" where
  "match_at term text i =
     (word_boundary text i \<and> literal_at term text i \<and>
      ((literal_at ''s'' text (i + length term) \<and> word_boundary text (i + length term + 1)) \<or>
       word_boundary text (i + length term)))"

text \<open>\<^verbatim>\<open>pattern.search(text)\<close>, as a truth value: a match starts somewhere.\<close>

definition pattern_search :: "string \<Rightarrow> string \<Rightarrow> bool" where
  "pattern_search term text = list_ex (match_at term text) [0..<Suc (length text)]"

definition CATEGORY_PATTERNS :: "(string \<times> (string \<times> (string \<Rightarrow> bool)) list) list" where
  "CATEGORY_PATTERNS =
     map (\<lambda>(category, terms). (category, map (\<lambda>term. (term, pattern_search term)) terms))
       SEARCH_CATEGORIES"

text \<open>
  \<^verbatim>\<open>find_matches_in_text\<close>: a dict from category to the set of terms found. The
  argument is \<^verbatim>\<open>None\<close> or a string; both \<^verbatim>\<open>None\<close> and the empty string take
  the first return.
\<close>

definition find_matches_in_text :: "string option \<Rightarrow> (string \<times> string set) list" where
  "find_matches_in_text text =
     (case text of
        None \<Rightarrow> map (\<lambda>(cat, terms). (cat, {})) SEARCH_CATEGORIES
      | Some t \<Rightarrow>
          if t = [] then map (\<lambda>(cat, terms). (cat, {})) SEARCH_CATEGORIES
          else map (\<lambda>(category, patterns).
                  (category, set (map fst (filter (\<lambda>(term, pattern). pattern t) patterns))))
                CATEGORY_PATTERNS)"

text \<open>
  \<^verbatim>\<open>d[category]\<close> on such a dict. The keys are those of
  \<^verbatim>\<open>SEARCH_CATEGORIES\<close> and every read is at one of them; the \<open>None\<close>
  branch stands for the \<^verbatim>\<open>KeyError\<close> that a read elsewhere would raise.
\<close>

definition dict_get :: "(string \<times> string set) list \<Rightarrow> string \<Rightarrow> string set" where
  "dict_get d k = (case map_of d k of Some s \<Rightarrow> s | None \<Rightarrow> {})"

text \<open>
  The spec's words for a match: the text holds the word, up to case, as a complete
  token, i.e. no word character stands directly before or after it.
\<close>

definition whole_token_at :: "string \<Rightarrow> string \<Rightarrow> nat \<Rightarrow> bool" where
  "whole_token_at w text i =
     (i + length w \<le> length text \<and> lower (take (length w) (drop i text)) = lower w \<and>
      (i = 0 \<or> \<not> is_word_char (text ! (i - 1))) \<and>
      (i + length w = length text \<or> \<not> is_word_char (text ! (i + length w))))"

definition contains_whole_token :: "string \<Rightarrow> string \<Rightarrow> bool" where
  "contains_whole_token w text = list_ex (whole_token_at w text) [0..<Suc (length text)]"

definition term_or_plural_token :: "string \<Rightarrow> string \<Rightarrow> bool" where
  "term_or_plural_token t text =
     (contains_whole_token t text \<or> contains_whole_token (t @ ''s'') text)"

section \<open>Category scan (scan\_species\_mentions.py)\<close>

text \<open>
  A scan target, as \<^verbatim>\<open>get_files_to_scan\<close> lists it: the dict with keys
  \<^verbatim>\<open>path\<close>, \<^verbatim>\<open>type\<close> and \<^verbatim>\<open>name\<close>.
\<close>

record file_info =
  fi_path :: string
  fi_type :: string
  fi_name :: string

text \<open>
  The format readers open files; what they return is the state of the file system, so
  the embedding takes them as given. Each returns a string (the extracted text, or a
  string starting with \<^verbatim>\<open>ERROR:\<close> from its \<^verbatim>\<open>except\<close> branch) or
  \<^verbatim>\<open>None\<close> (\<^verbatim>\<open>read_csv_file\<close> when no encoding works).
\<close>

record readers =
  read_shapefile :: "string \<Rightarrow> string option"
  read_geodatabase :: "string \<Rightarrow> string option"
  read_excel :: "string \<Rightarrow> string option"
  read_csv_file :: "string \<Rightarrow> string option"
  read_pdf :: "string \<Rightarrow> string option"
  read_gpx :: "string \<Rightarrow> string option"

text \<open>One row of the scan artifact: the dict \<^verbatim>\<open>scan_file\<close> returns.\<close>

record scan_record =
  file_path :: string
  file_name :: string
  file_type :: string
  status :: string
  error :: string
  category_columns :: "(string \<times> string) list"

definition read_content :: "readers \<Rightarrow> file_info \<Rightarrow> string option" where
  "read_content rd file_info =
     (let filepath = fi_path file_info; ftype = fi_type file_info in
        if ftype = ''shapefile'' then read_shapefile rd filepath
        else if ftype = ''geodatabase'' then read_geodatabase rd filepath
        else if ftype = ''excel'' then read_excel rd filepath
        else if ftype = ''csv'' then read_csv_file rd filepath
        else if ftype = ''pdf'' then read_pdf rd filepath
        else if ftype = ''gpx'' then read_gpx rd filepath
        else None)"

text \<open>
  The test \<^verbatim>\<open>text and isinstance(text, str) and text.startswith("ERROR:")\<close>;
  the result is the error text when it holds.
\<close>

definition error_marker :: "string option \<Rightarrow> string option" where
  "error_marker content =
     (case content of
        None \<Rightarrow> None
      | Some t \<Rightarrow> if t \<noteq> [] \<and> starts_with t ''ERROR:'' then Some t else None)"

definition truthy :: "string option \<Rightarrow> bool" where
  "truthy content = (case content of None \<Rightarrow> False | Some t \<Rightarrow> t \<noteq> [])"

definition scan_file :: "readers \<Rightarrow> file_info \<Rightarrow> scan_record" where
  "scan_file rd file_info =
     (let filepath = fi_path file_info;
          ftype = fi_type file_info;
          content = read_content rd file_info
      in case error_marker content of
           Some err \<Rightarrow>
             \<lparr>file_path = filepath, file_name = fi_name file_info, file_type = ftype,
              status = ''error'', error = err,
              category_columns = map (\<lambda>(category, terms). (category, [])) SEARCH_CATEGORIES\<rparr>
         | None \<Rightarrow>
             (let matches_from_content =
                    (if truthy content then find_matches_in_text content
                     else map (\<lambda>(cat, terms). (cat, {})) SEARCH_CATEGORIES);
                  matches_from_path = find_matches_in_text (Some filepath)
              in \<lparr>file_path = filepath, file_name = fi_name file_info, file_type = ftype,
                  status = ''success'', error = [],
                  category_columns =
                    map (\<lambda>(category, terms).
                          (category,
                           let combined = dict_get matches_from_content category \<union>
                                          dict_get matches_from_path category
                           in if combined \<noteq> {} then join '', '' (sorted_list_of_set combined)
                              else []))
                      SEARCH_CATEGORIES\<rparr>))"

text \<open>\<^verbatim>\<open>result.get(cat)\<close> on a row: the column's string, or nothing.\<close>

definition column :: "scan_record \<Rightarrow> string \<Rightarrow> string option" where
  "column r cat = map_of (category_columns r) cat"

text \<open>
  The scanning loop of \<^verbatim>\<open>main\<close>, with its three variables
  \<^verbatim>\<open>results\<close>, \<^verbatim>\<open>errors\<close> and \<^verbatim>\<open>files_with_matches\<close>.
\<close>

fun scan_loop ::
  "readers \<Rightarrow> file_info list \<Rightarrow> scan_record list \<times> nat \<times> nat \<Rightarrow> scan_record list \<times> nat \<times> nat"
where
  "scan_loop rd [] state = state"
| "scan_loop rd (file_info # files) (results, errors, files_with_matches) =
     (let result = scan_file rd file_info;
          has_match = list_ex (\<lambda>(cat, terms).
                        case column result cat of None \<Rightarrow> False | Some v \<Rightarrow> v \<noteq> [])
                      SEARCH_CATEGORIES
      in scan_loop rd files
           (results @ [result],
            (if status result = ''error'' then errors + 1 else errors),
            (if has_match then files_with_matches + 1 else files_with_matches)))"

definition scan_all :: "readers \<Rightarrow> file_info list \<Rightarrow> scan_record list \<times> nat \<times> nat" where
  "scan_all rd files = scan_loop rd files ([], 0, 0)"

text \<open>
  The spec's words for the terms found in a text: those of the category's list that
  the text holds as a complete token, with or without the plural \<open>s\<close>; none when
  there is no text.
\<close>

definition terms_found :: "string list \<Rightarrow> string option \<Rightarrow> string set" where
  "terms_found terms content =
     (case content of
        None \<Rightarrow> {}
      | Some t \<Rightarrow> set (filter (\<lambda>term. term_or_plural_token term t) terms))"

text \<open>
  A small run: a shapefile whose reader fails and a table that mentions dugongs in its
  content and in its folder name.
\<close>

definition example_readers :: readers where
  "example_readers =
     \<lparr>read_shapefile = (\<lambda>p. Some ''ERROR: unsupported driver''),
      read_geodatabase = (\<lambda>p. None),
      read_excel = (\<lambda>p. None),
      read_csv_file = (\<lambda>p. Some ''Dugong sightings 2023''),
      read_pdf = (\<lambda>p. None),
      read_gpx = (\<lambda>p. None)\<rparr>"

definition example_shapefile :: file_info where
  "example_shapefile = \<lparr>fi_path = ''/gis/coast.shp'', fi_type = ''shapefile'', fi_name = ''coast.shp''\<rparr>"

definition example_table :: file_info where
  "example_table =
     \<lparr>fi_path = ''/surveys/Dugong 2023/obs.csv'', fi_type = ''csv'', fi_name = ''obs.csv''\<rparr>"

section \<open>Query engine (search\_service.py)\<close>

text \<open>
  A record of the loaded index, as \<^verbatim>\<open>build_index.py\<close> writes it to
  \<^verbatim>\<open>search_index.json\<close>: the keys \<^verbatim>\<open>file_path\<close>, \<^verbatim>\<open>file_name\<close>,
  \<^verbatim>\<open>file_type\<close> and \<^verbatim>\<open>searchable_text\<close>, and one key per category. The
  first four are read with \<^verbatim>\<open>rec[key]\<close> and are fields here; the category
  keys are read with \<^verbatim>\<open>rec.get(cat, '')\<close> and stay a dict.
\<close>

record index_record =
  rec_file_path :: string
  rec_file_name :: string
  rec_file_type :: string
  rec_searchable_text :: string
  rec_categories :: "(string \<times> string) list"

text \<open>
  The module's state, set once at import: \<^verbatim>\<open>records\<close>, \<^verbatim>\<open>categories\<close>,
  \<^verbatim>\<open>filters\<close> and the matrix \<^verbatim>\<open>embeddings\<close>, one row per record.
\<close>

record index_state =
  records :: "index_record list"
  categories :: "string list"
  filters :: "(string \<times> string list) list"
  embeddings :: "real list list"

text \<open>
  What the service calls outside the repository. \<^verbatim>\<open>re.compile(p, re.IGNORECASE)\<close>
  either raises \<^verbatim>\<open>re.error\<close> (\<open>Inl\<close>, with the error's text) or returns a
  pattern, of which only the truth value of \<^verbatim>\<open>search\<close> is used.
  \<^verbatim>\<open>embed\<close> is the sentence model, giving the one row of its result.
  \<^verbatim>\<open>np.argsort\<close> is called with its default \<^verbatim>\<open>kind\<close>.
\<close>

record library =
  re_compile :: "string \<Rightarrow> string + (string \<Rightarrow> bool)"
  embed :: "string \<Rightarrow> real list"
  argsort :: "real list \<Rightarrow> nat list"


text \<open>
  The parameters of \<^verbatim>\<open>search\<close>: \<^verbatim>\<open>q\<close>, the ten optional category
  parameters (read by name), \<^verbatim>\<open>file_type\<close>, \<^verbatim>\<open>include\<close>,
  \<^verbatim>\<open>exclude\<close> and \<^verbatim>\<open>limit\<close>.
\<close>

record query =
  q_text :: string
  q_category :: "string \<Rightarrow> string option"
  q_file_type :: "string option"
  q_include :: "string option"
  q_exclude :: "string option"
  q_limit :: int

definition FILTER_KEYS :: "string list" where
  "FILTER_KEYS =
     [''marine_mammals'', ''sharks_rays'', ''reptiles'', ''fish'', ''birds'',
      ''invertebrates_habitat'', ''survey_types'', ''places'', ''data_types'', ''conservation'']"

definition category_filters :: "query \<Rightarrow> (string \<times> string option) list" where
  "category_filters qr = map (\<lambda>cat. (cat, q_category qr cat)) FILTER_KEYS"

record result_row =
  row_file_name :: string
  row_file_path :: string
  row_file_type :: string
  row_score :: "real option"
  row_categories :: "(string \<times> string) list"

record result_payload =
  total_matches :: nat
  showing :: nat
  results :: "result_row list"

datatype response = Error string | Results result_payload

text \<open>Exceptions that leave \<^verbatim>\<open>search\<close> uncaught.\<close>

datatype exn = IndexError | ValueError

text \<open>A parameter that is given and not empty (\<^verbatim>\<open>if filter_val:\<close>).\<close>

definition given :: "string option \<Rightarrow> string option" where
  "given p = (case p of None \<Rightarrow> None | Some v \<Rightarrow> if v = [] then None else Some v)"

definition category_value :: "index_record \<Rightarrow> string \<Rightarrow> string" where
  "category_value r cat = (case map_of (rec_categories r) cat of None \<Rightarrow> [] | Some v \<Rightarrow> v)"

text \<open>
  The loop over \<^verbatim>\<open>category_filters.items()\<close>. Every candidate index comes
  from \<^verbatim>\<open>range(len(records))\<close>, so \<^verbatim>\<open>records[i]\<close> is in range.
\<close>

fun apply_category_filters ::
  "index_record list \<Rightarrow> (string \<times> string option) list \<Rightarrow> nat list \<Rightarrow> nat list"
where
  "apply_category_filters recs [] candidate_indices = candidate_indices"
| "apply_category_filters recs ((cat, filter_val) # rest) candidate_indices =
     apply_category_filters recs rest
       (case given filter_val of
          Some v \<Rightarrow>
            filter (\<lambda>i. contains (lower (category_value (recs ! i) cat)) (lower v))
              candidate_indices
        | None \<Rightarrow> candidate_indices)"

definition apply_file_type :: "index_record list \<Rightarrow> string option \<Rightarrow> nat list \<Rightarrow> nat list" where
  "apply_file_type recs file_type_param candidate_indices =
     (case given file_type_param of
        Some ft \<Rightarrow> filter (\<lambda>i. rec_file_type (recs ! i) = ft) candidate_indices
      | None \<Rightarrow> candidate_indices)"

definition apply_include ::
  "library \<Rightarrow> index_record list \<Rightarrow> string option \<Rightarrow> nat list \<Rightarrow> string + nat list"
where
  "apply_include lib recs incl candidate_indices =
     (case given incl of
        Some p \<Rightarrow>
          (case re_compile lib p of
             Inl e \<Rightarrow> Inl (''Include regex error: '' @ e)
           | Inr r_inc \<Rightarrow>
               Inr (filter (\<lambda>i. r_inc (rec_searchable_text (recs ! i)) \<or>
                                r_inc (rec_file_path (recs ! i)))
                      candidate_indices))
      | None \<Rightarrow> Inr candidate_indices)"

definition apply_exclude ::
  "library \<Rightarrow> index_record list \<Rightarrow> string option \<Rightarrow> nat list \<Rightarrow> string + nat list"
where
  "apply_exclude lib recs excl candidate_indices =
     (case given excl of
        Some p \<Rightarrow>
          (case re_compile lib p of
             Inl e \<Rightarrow> Inl (''Exclude regex error: '' @ e)
           | Inr r_exc \<Rightarrow>
               Inr (filter (\<lambda>i. \<not> (r_exc (rec_searchable_text (recs ! i)) \<or>
                                   r_exc (rec_file_path (recs ! i))))
                      candidate_indices))
      | None \<Rightarrow> Inr candidate_indices)"

text \<open>
  The candidate set after all filters (lines 97 to 136), or the text of the error
  payload that an invalid pattern returns.
\<close>

definition candidates :: "library \<Rightarrow> index_state \<Rightarrow> query \<Rightarrow> string + nat list" where
  "candidates lib idx qr =
     (let recs = records idx;
          c0 = [0..<length recs];
          c1 = apply_category_filters recs (category_filters qr) c0;
          c2 = apply_file_type recs (q_file_type qr) c1
      in case apply_include lib recs (q_include qr) c2 of
           Inl msg \<Rightarrow> Inl msg
         | Inr c3 \<Rightarrow> apply_exclude lib recs (q_exclude qr) c3)"

text \<open>
  The row product \<^verbatim>\<open>(candidate_embeddings @ q_emb.T).ravel()\<close>: one dot product
  per candidate row. Scores are taken as real numbers; rounding of the 32-bit
  arithmetic is not modelled.
\<close>

definition dot :: "real list \<Rightarrow> real list \<Rightarrow> real" where
  "dot u v = sum_list (map2 (*) u v)"

text \<open>
  The ranking (lines 138 to 156): the ranked indices and their scores. Indexing the
  matrix with a candidate beyond its rows raises \<^verbatim>\<open>IndexError\<close>; a row length
  other than the query vector's raises \<^verbatim>\<open>ValueError\<close> in the product.
  \<^verbatim>\<open>sorted\<close> with a key is a stable sort, as \<^const>\<open>sort_key\<close> is.
\<close>

definition ranking ::
  "library \<Rightarrow> index_state \<Rightarrow> string \<Rightarrow> nat list \<Rightarrow> exn + (nat list \<times> real option list)"
where
  "ranking lib idx q candidate_indices =
     (if strip q \<noteq> [] then
        (let q_emb = embed lib q in
           if candidate_indices \<noteq> [] then
             (if list_ex (\<lambda>i. length (embeddings idx) \<le> i) candidate_indices then Inl IndexError
              else
                (let candidate_embeddings = map (\<lambda>i. embeddings idx ! i) candidate_indices in
                   if list_ex (\<lambda>row. length row \<noteq> length q_emb) candidate_embeddings
                   then Inl ValueError
                   else
                     (let sims = map (\<lambda>row. dot row q_emb) candidate_embeddings;
                          sorted_order = argsort lib (map uminus sims);
                          ranked_indices = map (\<lambda>i. candidate_indices ! i) sorted_order;
                          ranked_scores = map (\<lambda>i. Some (sims ! i)) sorted_order
                      in Inr (ranked_indices, ranked_scores))))
           else Inr ([], []))
      else
        (let sorted_candidates =
               sort_key (\<lambda>i. lower (rec_file_name (records idx ! i))) candidate_indices
         in Inr (sorted_candidates, replicate (length sorted_candidates) None)))"

text \<open>The slice \<^verbatim>\<open>xs[:limit]\<close> for an integer \<^verbatim>\<open>limit\<close> of either sign.\<close>

definition slice_to :: "int \<Rightarrow> 'a list \<Rightarrow> 'a list" where
  "slice_to limit xs =
     (if 0 \<le> limit then take (nat limit) xs
      else take (nat (int (length xs) + limit)) xs)"

text \<open>
  \<^verbatim>\<open>round(score, 4)\<close>: to the nearest multiple of 0.0001, a tie going to the
  even one.
\<close>

definition round_half_even :: "real \<Rightarrow> int" where
  "round_half_even x =
     (let f = \<lfloor>x\<rfloor>; d = x - of_int f in
        if d < 1 / 2 then f
        else if 1 / 2 < d then f + 1
        else if even f then f else f + 1)"

definition round4 :: "real \<Rightarrow> real" where
  "round4 x = of_int (round_half_even (x * 10000)) / 10000"

definition build_result :: "index_state \<Rightarrow> nat \<times> real option \<Rightarrow> result_row" where
  "build_result idx p =
     (let r = records idx ! fst p in
        \<lparr>row_file_name = rec_file_name r,
         row_file_path = rec_file_path r,
         row_file_type = rec_file_type r,
         row_score = map_option round4 (snd p),
         row_categories =
           map (\<lambda>cat. (cat, category_value r cat))
             (filter (\<lambda>cat. category_value r cat \<noteq> []) (categories idx))\<rparr>)"

definition search :: "library \<Rightarrow> index_state \<Rightarrow> query \<Rightarrow> exn + response" where
  "search lib idx qr =
     (case candidates lib idx qr of
        Inl msg \<Rightarrow> Inr (Error msg)
      | Inr candidate_indices \<Rightarrow>
          (case ranking lib idx (q_text qr) candidate_indices of
             Inl ex \<Rightarrow> Inl ex
           | Inr (ranked_indices, ranked_scores) \<Rightarrow>
               (let rows = map (build_result idx)
                             (zip (slice_to (q_limit qr) ranked_indices)
                                  (slice_to (q_limit qr) ranked_scores))
                in Inr (Results \<lparr>total_matches = length ranked_indices,
                                  showing = length rows,
                                  results = rows\<rparr>))))"


text \<open>
  Two sorts that meet the contract of \<^verbatim>\<open>argsort\<close>: one keeps equal elements in
  index order, the other returns them in the opposite order.
\<close>

definition argsort_stable :: "real list \<Rightarrow> nat list" where
  "argsort_stable xs = sort_key (\<lambda>i. xs ! i) [0..<length xs]"


text \<open>
  A small index of three files, and a library whose patterns are plain words (found
  anywhere, up to case) and which rejects the pattern of a single open parenthesis,
  as \<^verbatim>\<open>re.compile\<close> does.
\<close>

definition example_index :: index_state where
  "example_index =
     \<lparr>records =
        [\<lparr>rec_file_path = ''/surveys/a.csv'', rec_file_name = ''a.csv'', rec_file_type = ''csv'',
          rec_searchable_text = ''filename: a.csv | type: csv | marine_mammals: dugong'',
          rec_categories = [(''marine_mammals'', ''dugong''), (''places'', ''reef'')]\<rparr>,
         \<lparr>rec_file_path = ''/surveys/b.csv'', rec_file_name = ''b.csv'', rec_file_type = ''csv'',
          rec_searchable_text = ''filename: b.csv | type: csv | marine_mammals: dolphin, dugong'',
          rec_categories = [(''marine_mammals'', ''dolphin, dugong''), (''places'', [])]\<rparr>,
         \<lparr>rec_file_path = ''/gis/c.shp'', rec_file_name = ''c.shp'', rec_file_type = ''shapefile'',
          rec_searchable_text = ''filename: c.shp | type: shapefile | places: reef'',
          rec_categories = [(''marine_mammals'', []), (''places'', ''reef'')]\<rparr>],
      categories = FILTER_KEYS,
      filters = [(''marine_mammals'', [''dolphin'', ''dugong'']), (''places'', [''reef''])],
      embeddings = [[1, 0], [1, 0], [15 / 17, 8 / 17]]\<rparr>"

definition example_library :: library where
  "example_library =
     \<lparr>re_compile = (\<lambda>p. if p = ''('' then Inl ''missing ), unterminated subpattern at position 0''
                         else Inr (\<lambda>s. contains (lower s) (lower p))),
      embed = (\<lambda>q. if q = ''reef'' then [3 / 5, 4 / 5] else [1, 0]),
      argsort = argsort_stable\<rparr>"

definition example_query :: query where
  "example_query =
     \<lparr>q_text = [], q_category = (\<lambda>cat. None), q_file_type = None,
      q_include = None, q_exclude = None, q_limit = 100\<rparr>"


text \<open>
  \<^verbatim>\<open>read_gpx\<close> (lines 352 to 358) over a file store: opening and reading the
  file either raises, with the exception's text (\<open>Inl\<close>), or gives the file's
  own text (\<open>Inr\<close>), which is returned as it is.
\<close>

definition read_gpx_of :: "(string \<Rightarrow> string + string) \<Rightarrow> string \<Rightarrow> string option" where
  "read_gpx_of open_read gpx_path =
     (case open_read gpx_path of
        Inr content \<Rightarrow> Some content
      | Inl e \<Rightarrow> Some (''ERROR: '' @ e))"

text \<open>
  A store with one track file, whose own text starts with the word \<open>ERROR:\<close>, and a
  table of nesting records in a folder named after sea turtles.
\<close>

definition example_store :: "string \<Rightarrow> string + string" where
  "example_store p =
     (if p = ''/tracks/log.gpx'' then Inr ''ERROR: turtle tag lost''
      else Inl ''[Errno 2] No such file or directory'')"

definition example_track :: file_info where
  "example_track = \<lparr>fi_path = ''/tracks/log.gpx'', fi_type = ''gpx'', fi_name = ''log.gpx''\<rparr>"

definition example_nests :: file_info where
  "example_nests = \<lparr>fi_path = ''/sea turtles/n.csv'', fi_type = ''csv'', fi_name = ''n.csv''\<rparr>"

definition example_store_readers :: readers where
  "example_store_readers =
     \<lparr>read_shapefile = (\<lambda>p. Some ''ERROR: unsupported driver''),
      read_geodatabase = (\<lambda>p. None),
      read_excel = (\<lambda>p. None),
      read_csv_file = (\<lambda>p. Some ''Turtle and Hawksbill nests''),
      read_pdf = (\<lambda>p. None),
      read_gpx = read_gpx_of example_store\<rparr>"

text \<open>The terms of the category \<^verbatim>\<open>reptiles\<close>.\<close>

definition REPTILES :: "string list" where
  "REPTILES = [''turtle'', ''hawksbill'', ''loggerhead'', ''green turtle'', ''leatherback'',
        ''olive ridley'', ''sea snake'', ''sea turtle'']"

section \<open>Index builders (prepare\_index.py, neom\_search\_v2/build\_index.py)\<close>

subsection \<open>Strings and dicts\<close>

text \<open>
  \<^verbatim>\<open>s.split(sep)\<close> for a separator of one character: the pieces between the
  separators, empty pieces included, never an empty list.
\<close>

fun split_on :: "char \<Rightarrow> string \<Rightarrow> string list" where
  "split_on sep [] = [[]]"
| "split_on sep (c # cs) =
     (if c = sep then [] # split_on sep cs
      else (case split_on sep cs of
              p # ps \<Rightarrow> (c # p) # ps
            | [] \<Rightarrow> [[c]]))"

text \<open>\<^verbatim>\<open>s.replace(old, new)\<close> for single characters.\<close>

definition replace_char :: "char \<Rightarrow> char \<Rightarrow> string \<Rightarrow> string" where
  "replace_char old new s = map (\<lambda>c. if c = old then new else c) s"

text \<open>The backslash, code point 92.\<close>

definition backslash :: char where
  "backslash = CHR 0x5C"

text \<open>The slice \<^verbatim>\<open>xs[-4:]\<close>: the last four elements, or all of a shorter list.\<close>

definition last_four :: "'a list \<Rightarrow> 'a list" where
  "last_four xs = drop (length xs - 4) xs"

text \<open>
  The values a record dict of \<^verbatim>\<open>prepare_index.py\<close> holds: text, a number or
  \<^verbatim>\<open>None\<close>. A dict is the list of its items in insertion order.
\<close>

datatype pyval = Str string | Num real | PyNone

type_synonym pydict = "(string \<times> pyval) list"

text \<open>\<^verbatim>\<open>d.get(key, '')\<close>.\<close>

definition get_or_empty :: "pydict \<Rightarrow> string \<Rightarrow> pyval" where
  "get_or_empty d k = (case map_of d k of Some v \<Rightarrow> v | None \<Rightarrow> Str [])"

text \<open>
  \<^verbatim>\<open>d[key] = value\<close>: the value of a key the dict holds is replaced in place, a new
  key goes to the end.
\<close>

fun setitem :: "pydict \<Rightarrow> string \<Rightarrow> pyval \<Rightarrow> pydict" where
  "setitem [] k v = [(k, v)]"
| "setitem ((k', v') # d) k v =
     (if k' = k then (k, v) # d else (k', v') # setitem d k v)"

text \<open>The truth value of \<^verbatim>\<open>if value:\<close>.\<close>

fun is_truthy :: "pyval \<Rightarrow> bool" where
  "is_truthy (Str s) = (s \<noteq> [])"
| "is_truthy (Num x) = (x \<noteq> 0)"
| "is_truthy PyNone = False"

fun is_str :: "pyval \<Rightarrow> bool" where
  "is_str (Str s) = True"
| "is_str (Num x) = False"
| "is_str PyNone = False"

fun text_of :: "pyval \<Rightarrow> string" where
  "text_of (Str s) = s"
| "text_of (Num x) = []"
| "text_of PyNone = []"

text \<open>
  What \<^verbatim>\<open>build_searchable_text\<close> can raise: \<^verbatim>\<open>str.join\<close> raises
  \<^verbatim>\<open>TypeError\<close> on an item that is not text, and a path that is not text has no
  \<^verbatim>\<open>replace\<close>.
\<close>

datatype build_error = TypeError | AttributeError

definition join_values :: "string \<Rightarrow> pyval list \<Rightarrow> build_error + string" where
  "join_values sep parts =
     (if list_all is_str parts then Inr (join sep (map text_of parts)) else Inl TypeError)"

subsection \<open>prepare\_index.py\<close>

text \<open>
  The path segments kept by \<^verbatim>\<open>build_searchable_text\<close> (lines 58 and 59): the path
  with every backslash replaced by a slash, split at the slashes, without the
  segments that are empty, start with a dot or hold a colon.
\<close>

definition meaningful :: "string \<Rightarrow> string list" where
  "meaningful path =
     filter (\<lambda>p. p \<noteq> [] \<and> \<not> starts_with p ''.'' \<and> CHR '':'' \<notin> set p)
       (split_on CHR ''/'' (replace_char backslash CHR ''/'' path))"

text \<open>\<^verbatim>\<open>build_searchable_text(record)\<close> of \<^verbatim>\<open>prepare_index.py\<close>, lines 23 to 63.\<close>

definition build_searchable_text :: "pydict \<Rightarrow> build_error + string" where
  "build_searchable_text record =
     (let name = get_or_empty record ''name'';
          species = get_or_empty record ''species'';
          activity = get_or_empty record ''activity'';
          tokens = get_or_empty record ''filename_tokens'';
          fields = get_or_empty record ''fields'';
          path = get_or_empty record ''path'';
          parts = (if is_truthy name then replicate 3 name else []) @
                  (if is_truthy species then replicate 2 species else []) @
                  (if is_truthy activity then [activity] else []) @
                  (if is_truthy tokens then [tokens] else []) @
                  (if is_truthy fields then [fields] else [])
      in if is_truthy path then
           (case path of
              Str p \<Rightarrow> join_values '' '' (parts @ [Str (join '' '' (last_four (meaningful p)))])
            | Num x \<Rightarrow> Inl AttributeError
            | PyNone \<Rightarrow> Inl AttributeError)
         else join_values '' '' parts)"

text \<open>
  \<^verbatim>\<open>record['searchable_text'] = build_searchable_text(record)\<close>, the last step of
  each \<^verbatim>\<open>process_*\<close> loop.
\<close>

definition with_searchable_text :: "pydict \<Rightarrow> build_error + pydict" where
  "with_searchable_text record =
     (case build_searchable_text record of
        Inl e \<Rightarrow> Inl e
      | Inr t \<Rightarrow> Inr (setitem record ''searchable_text'' (Str t)))"

text \<open>
  What \<^verbatim>\<open>main\<close> writes to \<^verbatim>\<open>records.json\<close> (lines 253 to 260): every record
  without its \<^verbatim>\<open>searchable_text\<close> item.
\<close>

definition records_clean :: "pydict list \<Rightarrow> pydict list" where
  "records_clean all_records =
     map (\<lambda>r. filter (\<lambda>kv. fst kv \<noteq> ''searchable_text'') r) all_records"

subsection \<open>neom\_search\_v2/build\_index.py\<close>

text \<open>
  A row of the scan table as \<^verbatim>\<open>pd.read_csv\<close> gives it: a cell is the text of its
  field, or missing (NaN) for an empty field. The table has the columns the scanner
  writes.
\<close>

type_synonym row = "string \<Rightarrow> string option"

definition CATEGORIES :: "string list" where
  "CATEGORIES = [''marine_mammals'', ''sharks_rays'', ''reptiles'', ''fish'', ''birds'',
     ''invertebrates_habitat'', ''survey_types'', ''places'', ''data_types'', ''conservation'']"

text \<open>The folder names of a path (lines 52 and 53).\<close>

definition folders :: "string \<Rightarrow> string list" where
  "folders path =
     filter (\<lambda>p. 2 < length p \<and> CHR ''.'' \<notin> set p)
       (split_on CHR ''/'' (replace_char backslash CHR ''/'' path))"

text \<open>\<^verbatim>\<open>build_searchable_text(row)\<close> of \<^verbatim>\<open>build_index.py\<close>, lines 33 to 57.\<close>

definition build_searchable_text_v2 :: "row \<Rightarrow> string" where
  "build_searchable_text_v2 r =
     (let parts =
        (case r ''file_name'' of Some n \<Rightarrow> [''filename: '' @ n] | None \<Rightarrow> []) @
        (case r ''file_type'' of Some t \<Rightarrow> [''type: '' @ t] | None \<Rightarrow> []) @
        concat (map (\<lambda>cat. case r cat of
                               Some v \<Rightarrow> if v \<noteq> [] then [cat @ '': '' @ v] else []
                             | None \<Rightarrow> []) CATEGORIES) @
        (case r ''file_path'' of
           Some p \<Rightarrow> if folders p \<noteq> [] then [''location: '' @ join '' '' (last_four (folders p))]
                     else []
         | None \<Rightarrow> [])
      in join '' | '' parts)"

text \<open>The filter options of one category (lines 79 to 86).\<close>

definition all_values :: "row list \<Rightarrow> string \<Rightarrow> string set" where
  "all_values df_success cat =
     set (concat (map (\<lambda>r. case r cat of
                               Some val \<Rightarrow> if val \<noteq> [] then map strip (split_on CHR '','' val) else []
                             | None \<Rightarrow> []) df_success))"

definition filter_options :: "row list \<Rightarrow> (string \<times> string list) list" where
  "filter_options df_success =
     map (\<lambda>cat. (cat, sorted_list_of_set (all_values df_success cat))) CATEGORIES"

text \<open>The record of one row (lines 91 to 101); a missing cell stays missing.\<close>

definition build_record :: "row \<Rightarrow> (string \<times> string option) list" where
  "build_record r =
     [(''file_path'', r ''file_path''),
      (''file_name'', r ''file_name''),
      (''file_type'', r ''file_type''),
      (''searchable_text'', Some (build_searchable_text_v2 r))] @
     map (\<lambda>cat. (cat, Some (case r cat of Some v \<Rightarrow> v | None \<Rightarrow> []))) CATEGORIES"

text \<open>
  \<^verbatim>\<open>main\<close> of \<^verbatim>\<open>build_index.py\<close>: the content of \<^verbatim>\<open>search_index.json\<close> and
  of \<^verbatim>\<open>search_embeddings.npy\<close>, from the rows of the scan table and the encoder
  of the sentence model.
\<close>

record search_index =
  json_records :: "(string \<times> string option) list list"
  json_categories :: "string list"
  json_filters :: "(string \<times> string list) list"
  npy_embeddings :: "real list list"

definition build_index_main :: "(string list \<Rightarrow> real list list) \<Rightarrow> row list \<Rightarrow> search_index" where
  "build_index_main encode df =
     (let df_success = filter (\<lambda>r. r ''status'' = Some ''success'') df;
          recs = map build_record df_success;
          texts = map (\<lambda>r. case map_of r ''searchable_text'' of
                               Some (Some t) \<Rightarrow> t
                             | _ \<Rightarrow> []) recs
      in \<lparr>json_records = recs,
          json_categories = CATEGORIES,
          json_filters = filter_options df_success,
          npy_embeddings = encode texts\<rparr>)"

text \<open>How often a text occurs in another, counted at every position.\<close>

fun occurrences :: "string \<Rightarrow> string \<Rightarrow> nat" where
  "occurrences sub [] = 0"
| "occurrences sub (c # cs) = (if starts_with (c # cs) sub then 1 else 0) + occurrences sub cs"

text \<open>
  A record as \<^verbatim>\<open>process_csv_xlsx\<close> builds it, before its searchable text is
  attached, and a scan table of three rows, the second a failed scan.
\<close>

definition example_record :: pydict where
  "example_record =
     [(''type'', Str ''table''), (''subtype'', Str ''csv''),
      (''path'', Str (''C:'' @ [backslash] @ ''r//.g/s/t/u/v/a.csv'')),
      (''name'', Str ''a.csv''), (''species'', Str ''eel''), (''activity'', Str ''dive''),
      (''filename_tokens'', Str ''a''), (''fields'', Str ''id''), (''status'', Str ''ok''),
      (''row_count'', Num 7), (''file_size_mb'', PyNone),
      (''min_date'', Str []), (''max_date'', Str [])]"

definition example_row :: "string \<Rightarrow> string \<Rightarrow> string \<Rightarrow> string \<Rightarrow> row" where
  "example_row p n st reptiles =
     (\<lambda>c. if c = ''file_path'' then Some p
          else if c = ''file_name'' then Some n
          else if c = ''file_type'' then Some ''csv''
          else if c = ''status'' then Some st
          else if c = ''reptiles'' then (if reptiles = [] then None else Some reptiles)
          else None)"

definition example_frame :: "row list" where
  "example_frame =
     [example_row ''/surveys/a.csv'' ''a.csv'' ''success'' ''turtle, hawksbill'',
      example_row ''/surveys/b.csv'' ''b.csv'' ''error'' ''sea snake'',
      example_row ''/surveys/c.csv'' ''c.csv'' ''success'' ''turtle'']"

definition example_encode :: "string list \<Rightarrow> real list list" where
  "example_encode texts = map (\<lambda>t. [real (length t)]) texts"

section \<open>Verification\<close>

subsection \<open>Term matcher\<close>

lemma code_point_char_of: "n < 256 \<Longrightarrow> code_point (char_of n) = n"
  by (simp add: code_point_def)

lemma code_point_lt: "code_point c < 256"
  unfolding code_point_def by (metis of_char_mod_256 mod_less_divisor zero_less_numeral)

lemma is_word_char_lower: "is_word_char (lower_char c) = is_word_char c"
proof -
  have b: "code_point c < 256" by (rule code_point_lt)
  show ?thesis
    using b unfolding is_word_char_def lower_char_def Let_def
    by (auto simp: code_point_char_of)
qed

lemma lower_eq_word: "lower_char a = lower_char b \<Longrightarrow> is_word_char a = is_word_char b"
  by (metis is_word_char_lower)

lemma literal_at_first:
  assumes "literal_at t text i" "t \<noteq> []"
  shows "i < length text \<and> lower_char (text ! i) = lower_char (hd t)"
proof -
  from assms have len: "i + length t \<le> length text"
    and eq: "map lower_char (take (length t) (drop i text)) = map lower_char t"
    by (simp_all add: literal_at_def lower_def)
  from len assms(2) have i: "i < length text" by (cases t) auto
  have "map lower_char (take (length t) (drop i text)) ! 0 = map lower_char t ! 0"
    using eq by simp
  moreover have "0 < length t" using assms(2) by simp
  ultimately have "lower_char (text ! i) = lower_char (t ! 0)"
    using len i by (simp add: nth_append)
  then show ?thesis using i assms(2) by (simp add: hd_conv_nth)
qed

lemma literal_at_last:
  assumes "literal_at t text i" "t \<noteq> []"
  shows "lower_char (text ! (i + length t - 1)) = lower_char (last t)"
proof -
  from assms have len: "i + length t \<le> length text"
    and eq: "map lower_char (take (length t) (drop i text)) = map lower_char t"
    by (simp_all add: literal_at_def lower_def)
  have n: "length t - 1 < length t" using assms(2) by simp
  have "map lower_char (take (length t) (drop i text)) ! (length t - 1) = map lower_char t ! (length t - 1)"
    using eq by simp
  then have "lower_char (text ! (i + (length t - 1))) = lower_char (t ! (length t - 1))"
    using len n by simp
  moreover have "i + (length t - 1) = i + length t - 1" using n by simp
  ultimately show ?thesis using assms(2) by (simp add: last_conv_nth)
qed

lemma literal_at_append:
  "literal_at (t @ u) text i \<longleftrightarrow> literal_at t text i \<and> literal_at u text (i + length t)"
proof -
  have tk: "take (length t + length u) (drop i text) =
        take (length t) (drop i text) @ take (length u) (drop (i + length t) text)"
    by (simp add: take_add add.commute)
  show ?thesis
  proof (cases "i + length t + length u \<le> length text")
    case True
    then have "length (take (length t) (drop i text)) = length t" by simp
    then show ?thesis
      using True unfolding literal_at_def lower_def
      by (auto simp: tk)
  next
    case False
    then show ?thesis unfolding literal_at_def by auto
  qed
qed

lemma whole_token_at_alt:
  "whole_token_at w text i \<longleftrightarrow>
     literal_at w text i \<and> (i = 0 \<or> \<not> is_word_char (text ! (i - 1))) \<and>
      (i + length w = length text \<or> \<not> is_word_char (text ! (i + length w)))"
  unfolding whole_token_at_def literal_at_def by auto

lemma match_at_iff:
  assumes t: "t \<noteq> []" "is_word_char (hd t)" "is_word_char (last t)"
  shows "match_at t text i \<longleftrightarrow> whole_token_at t text i \<or> whole_token_at (t @ ''s'') text i"
proof (cases "literal_at t text i")
  case False
  then show ?thesis
    by (simp add: match_at_def whole_token_at_alt literal_at_append)
next
  case True
  define j where "j = i + length t"
  from True have len: "j \<le> length text" by (simp add: literal_at_def j_def)
  have i: "i < length text" and li: "lower_char (text ! i) = lower_char (hd t)"
    using literal_at_first[OF True t(1)] by simp_all
  have wi: "is_word_char (text ! i)"
    using lower_eq_word[OF li] t(2) by simp
  have ll: "lower_char (text ! (j - 1)) = lower_char (last t)"
    using literal_at_last[OF True t(1)] by (simp add: j_def)
  have wl: "is_word_char (text ! (j - 1))"
    using lower_eq_word[OF ll] t(3) by simp
  have j0: "0 < j" using t(1) by (simp add: j_def)
  have b0: "word_boundary text i \<longleftrightarrow> (i = 0 \<or> \<not> is_word_char (text ! (i - 1)))"
    using i wi unfolding word_boundary_def by auto
  have bj: "word_boundary text j \<longleftrightarrow> (j = length text \<or> \<not> is_word_char (text ! j))"
    using len wl j0 unfolding word_boundary_def by auto
  have bs: "word_boundary text (j + 1) \<longleftrightarrow> (j + 1 = length text \<or> \<not> is_word_char (text ! (j + 1)))"
    if s: "literal_at ''s'' text j"
  proof -
    have js: "j < length text" and ls: "lower_char (text ! j) = lower_char (hd ''s'')"
      using literal_at_first[OF s] by simp_all
    have "is_word_char (hd ''s'')" by (simp add: is_word_char_def code_point_def)
    then have "is_word_char (text ! j)"
      using lower_eq_word[OF ls] by simp
    then show ?thesis using js unfolding word_boundary_def by auto
  qed
  have m: "match_at t text i \<longleftrightarrow>
      (i = 0 \<or> \<not> is_word_char (text ! (i - 1))) \<and>
      ((literal_at ''s'' text j \<and> (j + 1 = length text \<or> \<not> is_word_char (text ! (j + 1)))) \<or>
       (j = length text \<or> \<not> is_word_char (text ! j)))"
    unfolding match_at_def j_def[symmetric] using True b0 bj bs by blast
  have w1: "whole_token_at t text i \<longleftrightarrow>
      (i = 0 \<or> \<not> is_word_char (text ! (i - 1))) \<and> (j = length text \<or> \<not> is_word_char (text ! j))"
    unfolding whole_token_at_alt j_def[symmetric] using True by simp
  have w2: "whole_token_at (t @ ''s'') text i \<longleftrightarrow>
      (i = 0 \<or> \<not> is_word_char (text ! (i - 1))) \<and> literal_at ''s'' text j \<and>
      (j + 1 = length text \<or> \<not> is_word_char (text ! (j + 1)))"
    unfolding whole_token_at_alt literal_at_append using True
    by (auto simp: j_def add.assoc)
  show ?thesis unfolding m w1 w2 by blast
qed

lemma pattern_search_iff:
  assumes t: "t \<noteq> []" "is_word_char (hd t)" "is_word_char (last t)"
  shows "pattern_search t text \<longleftrightarrow> term_or_plural_token t text"
  unfolding pattern_search_def term_or_plural_token_def contains_whole_token_def list_ex_iff
  using match_at_iff[OF t] by auto


lemma map_of_map_snd:
  "distinct (map fst xs) \<Longrightarrow> (k, v) \<in> set xs \<Longrightarrow>
     map_of (map (\<lambda>(a, b). (a, f a b)) xs) k = Some (f k v)"
  by (induction xs) (auto simp: rev_image_eqI)

lemma categories_distinct: "distinct (map fst SEARCH_CATEGORIES)"
  unfolding SEARCH_CATEGORIES_def by simp

lemma find_matches_category:
  assumes "(category, terms) \<in> set SEARCH_CATEGORIES"
  shows "dict_get (find_matches_in_text (Some text)) category =
           (if text = [] then {} else {t \<in> set terms. pattern_search t text})"
proof -
  have pats: "CATEGORY_PATTERNS =
        map (\<lambda>(category, terms). (category, map (\<lambda>term. (term, pattern_search term)) terms))
          SEARCH_CATEGORIES"
    by (simp add: CATEGORY_PATTERNS_def)
  have fm: "find_matches_in_text (Some text) =
      map (\<lambda>(category, terms). (category,
             if text = [] then {} else {t \<in> set terms. pattern_search t text}))
        SEARCH_CATEGORIES"
    unfolding find_matches_in_text_def pats
    by (auto simp: case_prod_unfold comp_def image_iff)
  show ?thesis
    unfolding dict_get_def fm
    using map_of_map_snd[OF categories_distinct assms,
        of "\<lambda>category terms. if text = [] then {} else {t \<in> set terms. pattern_search t text}"]
    by simp
qed

lemma terms_wordy_all:
  "list_all (\<lambda>(cat, terms). list_all (\<lambda>t. t \<noteq> [] \<and> is_word_char (hd t) \<and> is_word_char (last t)) terms) SEARCH_CATEGORIES"
  unfolding SEARCH_CATEGORIES_def
  by (simp add: is_word_char_def code_point_def)

lemma configured_term_wordy:
  assumes "(category, terms) \<in> set SEARCH_CATEGORIES" "t \<in> set terms"
  shows "t \<noteq> [] \<and> is_word_char (hd t) \<and> is_word_char (last t)"
  using terms_wordy_all assms unfolding list_all_iff by fastforce

lemma no_token_in_empty: "t \<noteq> [] \<Longrightarrow> \<not> term_or_plural_token t []"
  by (simp add: term_or_plural_token_def contains_whole_token_def whole_token_at_def)

text \<open>Evaluation of the token search on literal strings, by rewriting.\<close>

lemma lower_char_code:
  "lower_char c =
     (let n = of_char c :: nat in
        if (65 \<le> n \<and> n \<le> 90) \<or> (192 \<le> n \<and> n \<le> 222 \<and> n \<noteq> 215)
        then char_of (n + 32) else c)"
  by (simp add: lower_char_def code_point_def)

lemmas token_eval = term_or_plural_token_def contains_whole_token_def whole_token_at_def
  lower_def lower_char_code is_word_char_def code_point_def char_of_eq_iff

text \<open>
  Claim C1. For every configured category term \<open>t\<close> and every text, the matcher
  reports \<open>t\<close> exactly when the text holds \<open>t\<close>, or \<open>t\<close> followed by one
  \<open>s\<close>, up to case, as a complete token: no word character stands directly before
  or after the occurrence. So an occurrence inside a longer token, as \<open>ray\<close> in
  \<open>array\<close>, is not reported.
\<close>

theorem C1_term_matcher:
  assumes "(category, terms) \<in> set SEARCH_CATEGORIES" and "t \<in> set terms"
  shows "t \<in> dict_get (find_matches_in_text (Some text)) category \<longleftrightarrow>
           term_or_plural_token t text"
proof -
  have w: "t \<noteq> []" "is_word_char (hd t)" "is_word_char (last t)"
    using configured_term_wordy[OF assms] by simp_all
  show ?thesis
  proof (cases "text = []")
    case True
    then show ?thesis
      using no_token_in_empty[OF w(1)] find_matches_category[OF assms(1)] by simp
  next
    case False
    then show ?thesis
      using find_matches_category[OF assms(1), of "text"] pattern_search_iff[OF w, of "text"] assms(2)
      by simp
  qed
qed

theorem C1_term_matcher_witness:
  "''ray'' \<in> dict_get (find_matches_in_text (Some ''x Rays'')) ''sharks_rays'' \<and>
   term_or_plural_token ''ray'' ''x Rays'' \<and>
   ''ray'' \<notin> dict_get (find_matches_in_text (Some ''array'')) ''sharks_rays'' \<and>
   \<not> term_or_plural_token ''ray'' ''array''"
proof -
  have c: "(''sharks_rays'',
       [''shark'', ''ray'', ''manta'', ''stingray'', ''guitarfish'', ''sawfish'', ''hammerhead'',
        ''whale shark'', ''tiger shark'', ''reef shark'', ''blacktip'', ''whitetip'',
        ''eagle ray'', ''mobula'', ''leopard shark'', ''nurse shark'', ''silky shark'',
        ''thresher'', ''oceanic whitetip'']) \<in> set SEARCH_CATEGORIES"
    by (simp add: SEARCH_CATEGORIES_def)
  have t: "''ray'' \<in> set [''shark'', ''ray'', ''manta'', ''stingray'', ''guitarfish'', ''sawfish'', ''hammerhead'',
        ''whale shark'', ''tiger shark'', ''reef shark'', ''blacktip'', ''whitetip'',
        ''eagle ray'', ''mobula'', ''leopard shark'', ''nurse shark'', ''silky shark'',
        ''thresher'', ''oceanic whitetip'']"
    by simp
  have p: "term_or_plural_token ''ray'' ''x Rays''" by code_simp
  have n: "\<not> term_or_plural_token ''ray'' ''array''" by code_simp
  show ?thesis
    using C1_term_matcher[OF c t, of "''x Rays''"] C1_term_matcher[OF c t, of "''array''"] p n
    by simp
qed

subsection \<open>Category scan\<close>

lemma scan_loop_results:
  "fst (scan_loop rd files (acc, errors, m)) = acc @ map (scan_file rd) files"
  by (induction files arbitrary: acc errors m) (simp_all add: Let_def)

lemma scan_loop_errors:
  "fst (snd (scan_loop rd files (acc, errors, m))) =
     errors + length (filter (\<lambda>r. status r = ''error'') (map (scan_file rd) files))"
  by (induction files arbitrary: acc errors m) (simp_all add: Let_def)

lemma scan_file_error:
  assumes "error_marker (read_content rd fi) = Some err"
  shows "scan_file rd fi =
     \<lparr>file_path = fi_path fi, file_name = fi_name fi, file_type = fi_type fi,
      status = ''error'', error = err,
      category_columns = map (\<lambda>(category, terms). (category, [])) SEARCH_CATEGORIES\<rparr>"
  using assms by (simp add: scan_file_def Let_def)

lemma dict_get_empty:
  "dict_get (map (\<lambda>(cat, terms). (cat, {})) SEARCH_CATEGORIES) category = {}"
proof (cases "map_of (map (\<lambda>(cat, terms). (cat, {}::string set)) SEARCH_CATEGORIES) category")
  case None
  then show ?thesis by (simp add: dict_get_def)
next
  case (Some s)
  then have "(category, s) \<in> set (map (\<lambda>(cat, terms). (cat, {}::string set)) SEARCH_CATEGORIES)"
    by (rule map_of_SomeD)
  then have "s = {}" by auto
  then show ?thesis using Some by (simp add: dict_get_def)
qed

lemma find_matches_None: "find_matches_in_text None = map (\<lambda>(cat, terms). (cat, {})) SEARCH_CATEGORIES"
  by (simp add: find_matches_in_text_def)

lemma matches_terms_found:
  assumes "(category, terms) \<in> set SEARCH_CATEGORIES"
  shows "dict_get (find_matches_in_text content) category = terms_found terms content"
proof (cases content)
  case None
  then show ?thesis by (simp add: find_matches_None dict_get_empty terms_found_def)
next
  case (Some t)
  have "\<And>x. x \<in> set terms \<Longrightarrow> pattern_search x t = term_or_plural_token x t"
    using configured_term_wordy[OF assms] pattern_search_iff by blast
  moreover have "t = [] \<Longrightarrow> x \<in> set terms \<Longrightarrow> \<not> term_or_plural_token x t" for x
    using configured_term_wordy[OF assms] no_token_in_empty by blast
  ultimately show ?thesis
    using Some find_matches_category[OF assms, of t]
    by (auto simp: terms_found_def)
qed

lemma scan_file_success_column:
  assumes c: "(category, terms) \<in> set SEARCH_CATEGORIES"
    and ok: "error_marker (read_content rd fi) = None"
  shows "column (scan_file rd fi) category =
     Some (join '', '' (sorted_list_of_set
        (terms_found terms (read_content rd fi) \<union> terms_found terms (Some (fi_path fi)))))"
proof -
  define content where "content = read_content rd fi"
  define mc where "mc = (if truthy content then find_matches_in_text content
                     else map (\<lambda>(cat, terms). (cat, {})) SEARCH_CATEGORIES)"
  define render where "render = (\<lambda>category. let combined = dict_get mc category \<union>
                                          dict_get (find_matches_in_text (Some (fi_path fi))) category
                           in if combined \<noteq> {} then join '', '' (sorted_list_of_set combined)
                              else [])"
  have cols: "category_columns (scan_file rd fi) = map (\<lambda>(category, terms). (category, render category)) SEARCH_CATEGORIES"
    using ok unfolding scan_file_def content_def[symmetric] Let_def mc_def render_def
    by simp
  have mcg: "dict_get mc category = terms_found terms content"
  proof (cases "truthy content")
    case True
    then show ?thesis by (simp add: mc_def matches_terms_found[OF c])
  next
    case False
    then have "terms_found terms content = {}"
      using configured_term_wordy[OF c] no_token_in_empty
      by (auto simp: truthy_def terms_found_def split: option.splits)
    then show ?thesis using False by (simp add: mc_def dict_get_empty)
  qed
  have "column (scan_file rd fi) category = Some (render category)"
    unfolding column_def cols
    using map_of_map_snd[OF categories_distinct c, of "\<lambda>category terms. render category"] by simp
  moreover have "render category = join '', '' (sorted_list_of_set
        (terms_found terms content \<union> terms_found terms (Some (fi_path fi))))"
    unfolding render_def Let_def mcg matches_terms_found[OF c]
    by simp
  ultimately show ?thesis by (simp add: content_def)
qed

text \<open>
  Claim C7. When the reader of a scan target signals an error (it returns a string
  that starts with \<open>ERROR:\<close>), the row of that target has status \<open>error\<close>, carries
  the reader's text as its error, and has every category column present and empty.
  The batch goes on: the loop returns one row per target, each the scan of its target.
\<close>

theorem C7_reader_error_row:
  assumes i: "i < length files"
    and rd: "read_content rd (files ! i) = Some err"
    and err: "starts_with err ''ERROR:''"
  shows "length (fst (scan_all rd files)) = length files \<and>
         (\<forall>j < length files. fst (scan_all rd files) ! j = scan_file rd (files ! j)) \<and>
         status (fst (scan_all rd files) ! i) = ''error'' \<and>
         error (fst (scan_all rd files) ! i) = err \<and>
         map fst (category_columns (fst (scan_all rd files) ! i)) = map fst SEARCH_CATEGORIES \<and>
         (\<forall>v \<in> snd ` set (category_columns (fst (scan_all rd files) ! i)). v = [])"
proof -
  have res: "fst (scan_all rd files) = map (scan_file rd) files"
    by (simp add: scan_all_def scan_loop_results)
  have "err \<noteq> []" using err by (auto simp: starts_with_def)
  then have "error_marker (read_content rd (files ! i)) = Some err"
    using rd err by (simp add: error_marker_def)
  note row = scan_file_error[OF this]
  have r: "fst (scan_all rd files) ! i = scan_file rd (files ! i)"
    using i by (simp add: res)
  show ?thesis
    unfolding r unfolding res row using i
    by (auto simp: case_prod_unfold comp_def)
qed


theorem C7_reader_error_row_witness:
  "length (fst (scan_all example_readers [example_shapefile, example_table])) =
     length [example_shapefile, example_table] \<and>
   status (fst (scan_all example_readers [example_shapefile, example_table]) ! 0) = ''error'' \<and>
   error (fst (scan_all example_readers [example_shapefile, example_table]) ! 0) =
     ''ERROR: unsupported driver''"
proof -
  have a: "(0::nat) < length [example_shapefile, example_table]" by simp
  have b: "read_content example_readers ([example_shapefile, example_table] ! 0) =
      Some ''ERROR: unsupported driver''"
    by (simp add: read_content_def example_readers_def example_shapefile_def)
  have c: "starts_with ''ERROR: unsupported driver'' ''ERROR:''"
    by (simp add: starts_with_def)
  show ?thesis using C7_reader_error_row[OF a b c] by blast
qed

text \<open>
  Claim C8, as amended. When the reader's result does not start with \<open>ERROR:\<close>
  (the test the code makes for a read error), each category column of the row is the
  terms of that category found in the content or in the path string, each once, in
  sorted order, joined by a comma and a space; it is the empty string when no term is
  found. A file that is read and whose own text starts with \<open>ERROR:\<close> is taken
  for a read error: its row has status \<open>error\<close> and empty columns.
\<close>

theorem C8_success_row_columns:
  assumes c: "(category, terms) \<in> set SEARCH_CATEGORIES"
    and ok: "error_marker (read_content rd fi) = None"
  shows "status (scan_file rd fi) = ''success'' \<and>
         column (scan_file rd fi) category =
           Some (join '', '' (sorted_list_of_set
             (terms_found terms (read_content rd fi) \<union> terms_found terms (Some (fi_path fi)))))"
proof -
  have "status (scan_file rd fi) = ''success''"
    using ok by (simp add: scan_file_def Let_def)
  then show ?thesis using scan_file_success_column[OF c ok] by simp
qed


lemma reptiles_configured: "(''reptiles'', REPTILES) \<in> set SEARCH_CATEGORIES"
  by (simp add: SEARCH_CATEGORIES_def REPTILES_def)

lemma nests_content_terms:
  "terms_found REPTILES (Some ''Turtle and Hawksbill nests'') = {''turtle'', ''hawksbill''}"
  by (simp add: terms_found_def token_eval REPTILES_def)

lemma nests_path_terms:
  "terms_found REPTILES (Some ''/sea turtles/n.csv'') = {''turtle'', ''sea turtle''}"
  by (simp add: terms_found_def token_eval REPTILES_def)

lemma track_content_terms:
  "terms_found REPTILES (Some ''ERROR: turtle tag lost'') = {''turtle''}"
  by (simp add: terms_found_def token_eval REPTILES_def)

lemma nests_sorted:
  "sorted_list_of_set ({''turtle'', ''hawksbill''} \<union> {''turtle'', ''sea turtle''}) =
     [''hawksbill'', ''sea turtle'', ''turtle'']"
proof -
  have "{''turtle'', ''hawksbill''} \<union> {''turtle'', ''sea turtle''} =
      set [''turtle'', ''hawksbill'', ''sea turtle'']"
    by auto
  then show ?thesis
    by (simp add: sorted_list_of_set_sort_remdups less_eq_char_def less_char_def)
qed

theorem C8_success_row_columns_witness:
  "status (scan_file example_store_readers example_nests) = ''success'' \<and>
   column (scan_file example_store_readers example_nests) ''reptiles'' =
     Some ''hawksbill, sea turtle, turtle''"
proof -
  have rc: "read_content example_store_readers example_nests = Some ''Turtle and Hawksbill nests''"
    by (simp add: read_content_def example_store_readers_def example_nests_def)
  have ok: "error_marker (read_content example_store_readers example_nests) = None"
    unfolding rc by (simp add: error_marker_def starts_with_def)
  have p: "fi_path example_nests = ''/sea turtles/n.csv''"
    by (simp add: example_nests_def)
  show ?thesis
    using C8_success_row_columns[OF reptiles_configured ok]
    unfolding rc p nests_content_terms nests_path_terms nests_sorted by simp
qed

theorem C8_success_row_columns_counterexample:
  "example_store (fi_path example_track) = Inr ''ERROR: turtle tag lost'' \<and>
   read_content example_store_readers example_track = Some ''ERROR: turtle tag lost'' \<and>
   ''turtle'' \<in> dict_get (find_matches_in_text (Some ''ERROR: turtle tag lost'')) ''reptiles'' \<and>
   status (scan_file example_store_readers example_track) = ''error'' \<and>
   column (scan_file example_store_readers example_track) ''reptiles'' = Some []"
proof -
  have st: "example_store (fi_path example_track) = Inr ''ERROR: turtle tag lost''"
    by (simp add: example_store_def example_track_def)
  have rc: "read_content example_store_readers example_track = Some ''ERROR: turtle tag lost''"
    by (simp add: read_content_def example_store_readers_def example_track_def
        read_gpx_of_def example_store_def)
  have em: "error_marker (read_content example_store_readers example_track) =
      Some ''ERROR: turtle tag lost''"
    unfolding rc by (simp add: error_marker_def starts_with_def)
  have m: "''turtle'' \<in> dict_get (find_matches_in_text (Some ''ERROR: turtle tag lost'')) ''reptiles''"
    unfolding matches_terms_found[OF reptiles_configured] track_content_terms by simp
  have row: "status (scan_file example_store_readers example_track) = ''error''"
    unfolding scan_file_error[OF em] by simp
  have col: "column (scan_file example_store_readers example_track) ''reptiles'' = Some []"
    unfolding scan_file_error[OF em] column_def
    using map_of_map_snd[OF categories_distinct reptiles_configured, of "\<lambda>c t. []"]
    by simp
  from st rc m row col show ?thesis by blast
qed

subsection \<open>Query engine\<close>







lemma ranking_lengths:
  "ranking lib idx q cs = Inr (ri, rs) \<Longrightarrow> length ri = length rs"
  by (auto simp: ranking_def Let_def split: if_splits)

lemma length_slice_to:
  "int (length (slice_to limit xs)) =
     (if 0 \<le> limit then min limit (int (length xs)) else max 0 (int (length xs) + limit))"
  by (auto simp: slice_to_def)

lemma search_showing_count:
  assumes "search lib idx qr = Inr (Results p)"
  shows "int (showing p) =
     (if 0 \<le> q_limit qr then min (q_limit qr) (int (total_matches p))
      else max 0 (int (total_matches p) + q_limit qr))"
proof -
  from assms obtain cs ri rs where
    r: "ranking lib idx (q_text qr) cs = Inr (ri, rs)" and
    p: "p = \<lparr>total_matches = length ri,
          showing = length (map (build_result idx) (zip (slice_to (q_limit qr) ri) (slice_to (q_limit qr) rs))),
          results = map (build_result idx) (zip (slice_to (q_limit qr) ri) (slice_to (q_limit qr) rs))\<rparr>"
    by (auto simp: search_def Let_def split: sum.splits prod.splits)
  have len: "length ri = length rs" using ranking_lengths[OF r] .
  have "length (slice_to (q_limit qr) ri) = length (slice_to (q_limit qr) rs)"
    using len by (simp add: slice_to_def)
  then have "showing p = length (slice_to (q_limit qr) ri)"
    by (simp add: p)
  then show ?thesis using length_slice_to[of "q_limit qr" ri] by (simp add: p)
qed

text \<open>
  Claim C5, as amended. For every query that returns a result payload with a limit
  that is not negative, \<open>showing\<close> is the smaller of the limit and
  \<open>total_matches\<close>. For a negative limit the slice drops rows from the end, and
  \<open>showing\<close> is \<open>total_matches + limit\<close>, or zero when that is negative.
\<close>

theorem C5_showing_count:
  assumes "search lib idx qr = Inr (Results p)"
  shows "int (showing p) =
     (if 0 \<le> q_limit qr then min (q_limit qr) (int (total_matches p))
      else max 0 (int (total_matches p) + q_limit qr))"
  using assms by (rule search_showing_count)

lemma search_alphabetical:
  assumes "candidates lib idx qr = Inr cs" and "strip (q_text qr) = []"
  shows "\<exists>p. search lib idx qr = Inr (Results p) \<and> total_matches p = length cs"
  using assms by (simp add: search_def ranking_def Let_def)

lemma example_candidates_all:
  "candidates example_library example_index (example_query\<lparr>q_limit := l\<rparr>) = Inr [0, 1, 2]"
  by (simp add: candidates_def Let_def apply_include_def apply_exclude_def
        apply_file_type_def category_filters_def FILTER_KEYS_def
        given_def example_query_def example_library_def example_index_def)

lemma example_alphabetical:
  "\<exists>p. search example_library example_index (example_query\<lparr>q_limit := l\<rparr>) = Inr (Results p) \<and>
       total_matches p = 3"
  using search_alphabetical[OF example_candidates_all, of l]
  by (simp add: example_query_def strip_def numeral_3_eq_3)

theorem C5_showing_count_witness:
  "case search example_library example_index (example_query\<lparr>q_limit := 2\<rparr>) of
     Inr (Results p) \<Rightarrow> total_matches p = 3 \<and> showing p = 2
   | _ \<Rightarrow> False"
proof -
  from example_alphabetical[of 2] obtain p where
    s: "search example_library example_index (example_query\<lparr>q_limit := 2\<rparr>) = Inr (Results p)"
    and t: "total_matches p = 3" by blast
  from C5_showing_count[OF s] t have "showing p = 2" by (simp add: example_query_def)
  with s t show ?thesis by simp
qed

theorem C5_showing_count_counterexample:
  "case search example_library example_index (example_query\<lparr>q_limit := - 1\<rparr>) of
     Inr (Results p) \<Rightarrow>
       total_matches p = 3 \<and> showing p = 2 \<and>
       int (showing p) \<noteq> min (q_limit (example_query\<lparr>q_limit := - 1\<rparr>)) (int (total_matches p))
   | _ \<Rightarrow> False"
proof -
  from example_alphabetical[of "- 1"] obtain p where
    s: "search example_library example_index (example_query\<lparr>q_limit := - 1\<rparr>) = Inr (Results p)"
    and t: "total_matches p = 3" by blast
  from search_showing_count[OF s] t have "showing p = 2" by (simp add: example_query_def)
  with s t show ?thesis by (simp add: example_query_def)
qed

lemma apply_category_filters_filter:
  "apply_category_filters recs (map (\<lambda>cat. (cat, f cat)) ks) cs =
     filter (\<lambda>i. \<forall>cat \<in> set ks.
               case given (f cat) of
                 Some v \<Rightarrow> contains (lower (category_value (recs ! i) cat)) (lower v)
               | None \<Rightarrow> True) cs"
proof (induction ks arbitrary: cs)
  case Nil
  then show ?case by simp
next
  case (Cons k ks)
  show ?case
    by (cases "given (f k)") (auto simp: Cons.IH intro: filter_cong)
qed

lemma apply_file_type_filter:
  "\<exists>P. \<forall>cs. apply_file_type recs ft cs = filter P cs"
proof (cases "given ft")
  case None
  then have "\<forall>cs. apply_file_type recs ft cs = filter (\<lambda>i. True) cs"
    by (simp add: apply_file_type_def)
  then show ?thesis by blast
next
  case (Some v)
  then have "\<forall>cs. apply_file_type recs ft cs = filter (\<lambda>i. rec_file_type (recs ! i) = v) cs"
    by (simp add: apply_file_type_def)
  then show ?thesis by blast
qed

lemma apply_include_filter:
  "(\<exists>msg. \<forall>cs. apply_include lib recs incl cs = Inl msg) \<or>
   (\<exists>P. \<forall>cs. apply_include lib recs incl cs = Inr (filter P cs))"
proof (cases "given incl")
  case None
  then have "\<forall>cs. apply_include lib recs incl cs = Inr (filter (\<lambda>i. True) cs)"
    by (simp add: apply_include_def)
  then show ?thesis by blast
next
  case (Some p)
  show ?thesis
  proof (cases "re_compile lib p")
    case (Inl e)
    then have "\<forall>cs. apply_include lib recs incl cs = Inl (''Include regex error: '' @ e)"
      using Some by (simp add: apply_include_def)
    then show ?thesis by blast
  next
    case (Inr r)
    then have "\<forall>cs. apply_include lib recs incl cs =
        Inr (filter (\<lambda>i. r (rec_searchable_text (recs ! i)) \<or> r (rec_file_path (recs ! i))) cs)"
      using Some by (simp add: apply_include_def)
    then show ?thesis by blast
  qed
qed

lemma apply_exclude_filter:
  "(\<exists>msg. \<forall>cs. apply_exclude lib recs excl cs = Inl msg) \<or>
   (\<exists>P. \<forall>cs. apply_exclude lib recs excl cs = Inr (filter P cs))"
proof (cases "given excl")
  case None
  then have "\<forall>cs. apply_exclude lib recs excl cs = Inr (filter (\<lambda>i. True) cs)"
    by (simp add: apply_exclude_def)
  then show ?thesis by blast
next
  case (Some p)
  show ?thesis
  proof (cases "re_compile lib p")
    case (Inl e)
    then have "\<forall>cs. apply_exclude lib recs excl cs = Inl (''Exclude regex error: '' @ e)"
      using Some by (simp add: apply_exclude_def)
    then show ?thesis by blast
  next
    case (Inr r)
    then have "\<forall>cs. apply_exclude lib recs excl cs =
        Inr (filter (\<lambda>i. \<not> (r (rec_searchable_text (recs ! i)) \<or> r (rec_file_path (recs ! i)))) cs)"
      using Some by (simp add: apply_exclude_def)
    then show ?thesis by blast
  qed
qed

lemma later_filters:
  "(\<exists>msg. \<forall>cs. (case apply_include lib recs incl (apply_file_type recs ft cs) of
                    Inl m \<Rightarrow> Inl m | Inr c3 \<Rightarrow> apply_exclude lib recs excl c3) = Inl msg) \<or>
   (\<exists>P. \<forall>cs. (case apply_include lib recs incl (apply_file_type recs ft cs) of
                    Inl m \<Rightarrow> Inl m | Inr c3 \<Rightarrow> apply_exclude lib recs excl c3) = Inr (filter P cs))"
proof -
  obtain Pf where pf: "\<forall>cs. apply_file_type recs ft cs = filter Pf cs"
    using apply_file_type_filter by blast
  from apply_include_filter[of lib recs incl] show ?thesis
  proof
    assume "\<exists>msg. \<forall>cs. apply_include lib recs incl cs = Inl msg"
    then obtain msg where "\<forall>cs. apply_include lib recs incl cs = Inl msg" ..
    then have "\<forall>cs. (case apply_include lib recs incl (apply_file_type recs ft cs) of
                    Inl m \<Rightarrow> Inl m | Inr c3 \<Rightarrow> apply_exclude lib recs excl c3) = Inl msg"
      by simp
    then show ?thesis by blast
  next
    assume "\<exists>P. \<forall>cs. apply_include lib recs incl cs = Inr (filter P cs)"
    then obtain Pi where pi: "\<forall>cs. apply_include lib recs incl cs = Inr (filter Pi cs)" ..
    from apply_exclude_filter[of lib recs excl] show ?thesis
    proof
      assume "\<exists>msg. \<forall>cs. apply_exclude lib recs excl cs = Inl msg"
      then obtain msg where "\<forall>cs. apply_exclude lib recs excl cs = Inl msg" ..
      then have "\<forall>cs. (case apply_include lib recs incl (apply_file_type recs ft cs) of
                    Inl m \<Rightarrow> Inl m | Inr c3 \<Rightarrow> apply_exclude lib recs excl c3) = Inl msg"
        using pi by simp
      then show ?thesis by blast
    next
      assume "\<exists>P. \<forall>cs. apply_exclude lib recs excl cs = Inr (filter P cs)"
      then obtain Pe where pe: "\<forall>cs. apply_exclude lib recs excl cs = Inr (filter Pe cs)" ..
      have "\<forall>cs. (case apply_include lib recs incl (apply_file_type recs ft cs) of
                    Inl m \<Rightarrow> Inl m | Inr c3 \<Rightarrow> apply_exclude lib recs excl c3) =
                 Inr (filter (\<lambda>i. Pf i \<and> Pi i \<and> Pe i) cs)"
        using pf pi pe by (auto simp: conj_commute conj_left_commute)
      then show ?thesis by blast
    qed
  qed
qed

lemma candidates_as_filter:
  "(\<exists>msg. \<forall>f. candidates lib idx (qr\<lparr>q_category := f\<rparr>) = Inl msg) \<or>
   (\<exists>P. \<forall>f. candidates lib idx (qr\<lparr>q_category := f\<rparr>) =
        Inr (filter (\<lambda>i. P i \<and> (\<forall>cat \<in> set FILTER_KEYS.
               case given (f cat) of
                 Some v \<Rightarrow> contains (lower (category_value (records idx ! i) cat)) (lower v)
               | None \<Rightarrow> True)) [0..<length (records idx)]))"
proof -
  have c: "candidates lib idx (qr\<lparr>q_category := f\<rparr>) =
      (case apply_include lib (records idx) (q_include qr)
              (apply_file_type (records idx) (q_file_type qr)
                 (apply_category_filters (records idx) (map (\<lambda>cat. (cat, f cat)) FILTER_KEYS)
                    [0..<length (records idx)])) of
         Inl m \<Rightarrow> Inl m
       | Inr c3 \<Rightarrow> apply_exclude lib (records idx) (q_exclude qr) c3)" for f
    by (simp add: candidates_def Let_def category_filters_def split: sum.splits)
  from later_filters[where lib=lib and recs="records idx" and incl="q_include qr"
      and ft="q_file_type qr" and excl="q_exclude qr"]
  consider
    (err) msg where "\<And>cs. (case apply_include lib (records idx) (q_include qr)
                 (apply_file_type (records idx) (q_file_type qr) cs) of
                    Inl m \<Rightarrow> Inl m | Inr c3 \<Rightarrow> apply_exclude lib (records idx) (q_exclude qr) c3) = Inl msg"
  | (ok) P where "\<And>cs. (case apply_include lib (records idx) (q_include qr)
                 (apply_file_type (records idx) (q_file_type qr) cs) of
                    Inl m \<Rightarrow> Inl m | Inr c3 \<Rightarrow> apply_exclude lib (records idx) (q_exclude qr) c3) =
                  Inr (filter P cs)"
    by blast
  then show ?thesis
  proof cases
    case err
    have "\<forall>f. candidates lib idx (qr\<lparr>q_category := f\<rparr>) = Inl msg"
      unfolding c by (simp add: err)
    then show ?thesis by blast
  next
    case ok
    have "\<forall>f. candidates lib idx (qr\<lparr>q_category := f\<rparr>) =
        Inr (filter (\<lambda>i. P i \<and> (\<forall>cat \<in> set FILTER_KEYS.
               case given (f cat) of
                 Some v \<Rightarrow> contains (lower (category_value (records idx ! i) cat)) (lower v)
               | None \<Rightarrow> True)) [0..<length (records idx)])"
      unfolding c by (simp add: ok apply_category_filters_filter conj_commute)
    then show ?thesis by blast
  qed
qed

lemma two_filters_pointwise:
  assumes "c1 \<noteq> c2"
  shows "(\<forall>cat \<in> S. case given ((f(c1 := Some f1, c2 := Some f2)) cat) of
                        Some v \<Rightarrow> C cat v | None \<Rightarrow> True) \<longleftrightarrow>
         (\<forall>cat \<in> S. case given ((f(c1 := Some f1, c2 := None)) cat) of
                        Some v \<Rightarrow> C cat v | None \<Rightarrow> True) \<and>
         (\<forall>cat \<in> S. case given ((f(c1 := None, c2 := Some f2)) cat) of
                        Some v \<Rightarrow> C cat v | None \<Rightarrow> True)"
  using assms by (auto simp: given_def split: option.splits if_splits)

text \<open>
  Claim C2. Take two category filters on different categories, the rest of the query
  fixed. If the query with both filters returns an error payload (an invalid include or
  exclude pattern), the queries with one filter each return the same one. Otherwise
  all three reach the ranking, and the candidate set with both filters is the
  intersection of the candidate sets with one filter each.
\<close>

theorem C2_category_filters_intersect:
  assumes "c1 \<noteq> c2"
  shows "case candidates lib idx (qr\<lparr>q_category := (q_category qr)(c1 := Some f1, c2 := Some f2)\<rparr>) of
           Inl msg \<Rightarrow>
             candidates lib idx (qr\<lparr>q_category := (q_category qr)(c1 := Some f1, c2 := None)\<rparr>) = Inl msg \<and>
             candidates lib idx (qr\<lparr>q_category := (q_category qr)(c1 := None, c2 := Some f2)\<rparr>) = Inl msg
         | Inr both \<Rightarrow>
             (\<exists>only1 only2.
                candidates lib idx (qr\<lparr>q_category := (q_category qr)(c1 := Some f1, c2 := None)\<rparr>) =
                  Inr only1 \<and>
                candidates lib idx (qr\<lparr>q_category := (q_category qr)(c1 := None, c2 := Some f2)\<rparr>) =
                  Inr only2 \<and>
                set both = set only1 \<inter> set only2)"
proof -
  from candidates_as_filter[where lib=lib and idx=idx and qr=qr]
  consider
    (err) msg where "\<And>f. candidates lib idx (qr\<lparr>q_category := f\<rparr>) = Inl msg"
  | (ok) P where "\<And>f. candidates lib idx (qr\<lparr>q_category := f\<rparr>) =
        Inr (filter (\<lambda>i. P i \<and> (\<forall>cat \<in> set FILTER_KEYS.
               case given (f cat) of
                 Some v \<Rightarrow> contains (lower (category_value (records idx ! i) cat)) (lower v)
               | None \<Rightarrow> True)) [0..<length (records idx)])"
    by blast
  then show ?thesis
  proof cases
    case err
    then show ?thesis by simp
  next
    case ok
    note p = ok
    define K where "K = (\<lambda>f i. \<forall>cat \<in> set FILTER_KEYS.
               case given (f cat) of
                 Some v \<Rightarrow> contains (lower (category_value (records idx ! i) cat)) (lower v)
               | None \<Rightarrow> True)"
    have pk: "candidates lib idx (qr\<lparr>q_category := f\<rparr>) =
        Inr (filter (\<lambda>i. P i \<and> K f i) [0..<length (records idx)])" for f
      unfolding K_def by (rule p)
    have kb: "K ((q_category qr)(c1 := Some f1, c2 := Some f2)) i \<longleftrightarrow>
        K ((q_category qr)(c1 := Some f1, c2 := None)) i \<and>
        K ((q_category qr)(c1 := None, c2 := Some f2)) i" for i
      unfolding K_def by (rule two_filters_pointwise[OF assms])
    show ?thesis
      unfolding pk by (auto simp: kb)
  qed
qed

lemma eq_char_of_iff: "c = char_of (n::nat) \<longleftrightarrow> take_bit 8 n = of_char c"
  by (metis char_of_eq_iff)

lemmas example_eval = eq_char_of_iff candidates_def Let_def apply_include_def apply_exclude_def
  apply_file_type_def category_filters_def FILTER_KEYS_def category_value_def
  given_def example_query_def example_library_def example_index_def
  lower_def lower_char_code char_of_eq_iff starts_with_def

lemma example_both:
  "candidates example_library example_index
     (example_query\<lparr>q_category := (q_category example_query)
        (''marine_mammals'' := Some ''Dugong'', ''places'' := Some ''REEF'')\<rparr>) = Inr [0]"
  by (simp add: example_eval)

lemma example_only1:
  "candidates example_library example_index
     (example_query\<lparr>q_category := (q_category example_query)
        (''marine_mammals'' := Some ''Dugong'', ''places'' := None)\<rparr>) = Inr [0, 1]"
  by (simp add: example_eval)

lemma example_only2:
  "candidates example_library example_index
     (example_query\<lparr>q_category := (q_category example_query)
        (''marine_mammals'' := None, ''places'' := Some ''REEF'')\<rparr>) = Inr [0, 2]"
  by (simp add: example_eval)

theorem C2_category_filters_intersect_witness:
  "candidates example_library example_index
     (example_query\<lparr>q_category := (q_category example_query)
        (''marine_mammals'' := Some ''Dugong'', ''places'' := Some ''REEF'')\<rparr>) = Inr [0] \<and>
   candidates example_library example_index
     (example_query\<lparr>q_category := (q_category example_query)
        (''marine_mammals'' := Some ''Dugong'', ''places'' := None)\<rparr>) = Inr [0, 1] \<and>
   candidates example_library example_index
     (example_query\<lparr>q_category := (q_category example_query)
        (''marine_mammals'' := None, ''places'' := Some ''REEF'')\<rparr>) = Inr [0, 2] \<and>
   set [0::nat] = set [0, 1] \<inter> set [0, 2]"
proof -
  have ne: "''marine_mammals'' \<noteq> ''places''" by simp
  from C2_category_filters_intersect[OF ne, of example_library example_index example_query
      "''Dugong''" "''REEF''"]
  have "set [0::nat] = set [0, 1] \<inter> set [0, 2]"
    unfolding example_both example_only1 example_only2 by simp
  then show ?thesis using example_both example_only1 example_only2 by blast
qed





















subsection \<open>Index builders\<close>

lemma split_on_not_Nil: "split_on sep s \<noteq> []"
  by (induction s) (auto split: list.splits)

lemma occurrences_append_ge: "occurrences sub ys \<le> occurrences sub (xs @ ys)"
  by (induction xs) auto

lemma occurrences_prefix:
  assumes "sub \<noteq> []"
  shows "Suc (occurrences sub r) \<le> occurrences sub (sub @ r)"
proof (cases sub)
  case Nil
  with assms show ?thesis by simp
next
  case (Cons c cs)
  have sw: "starts_with (c # (cs @ r)) sub"
    by (simp add: starts_with_def Cons)
  have "occurrences sub (sub @ r) = occurrences sub (c # (cs @ r))"
    by (simp add: Cons)
  also have "\<dots> = Suc (occurrences sub (cs @ r))"
    using sw by simp
  finally show ?thesis
    using occurrences_append_ge[of sub r cs] by simp
qed

lemma occurrences_join_cons:
  assumes "sub \<noteq> []"
  shows "Suc (occurrences sub (join sep ps)) \<le> occurrences sub (join sep (sub # ps))"
proof (cases ps)
  case Nil
  then show ?thesis using occurrences_prefix[OF assms, of "[]"] by simp
next
  case (Cons q qs)
  have "Suc (occurrences sub (sep @ join sep (q # qs))) \<le>
      occurrences sub (sub @ sep @ join sep (q # qs))"
    by (rule occurrences_prefix[OF assms])
  moreover have "occurrences sub (join sep (q # qs)) \<le> occurrences sub (sep @ join sep (q # qs))"
    by (rule occurrences_append_ge)
  ultimately show ?thesis by (simp add: Cons)
qed

lemma occurrences_join_skip:
  "occurrences sub (join sep ps) \<le> occurrences sub (join sep (p # ps))"
proof (cases ps)
  case Nil
  then show ?thesis by simp
next
  case (Cons q qs)
  have "occurrences sub (join sep (q # qs)) \<le> occurrences sub (sep @ join sep (q # qs))"
    by (rule occurrences_append_ge)
  also have "\<dots> \<le> occurrences sub (p @ sep @ join sep (q # qs))"
    by (rule occurrences_append_ge)
  finally show ?thesis by (simp add: Cons)
qed

lemma weighted_parts_occurrences:
  assumes "n \<noteq> []" and "s \<noteq> []"
  shows "3 \<le> occurrences n (join sep (n # n # n # s # s # ps))"
    and "2 \<le> occurrences s (join sep (n # n # n # s # s # ps))"
proof -
  have "Suc (Suc (Suc (occurrences n (join sep (s # s # ps))))) \<le>
      occurrences n (join sep (n # n # n # s # s # ps))"
    using occurrences_join_cons[OF assms(1), of sep "s # s # ps"]
      occurrences_join_cons[OF assms(1), of sep "n # s # s # ps"]
      occurrences_join_cons[OF assms(1), of sep "n # n # s # s # ps"]
    by linarith
  then show "3 \<le> occurrences n (join sep (n # n # n # s # s # ps))" by linarith
  have "Suc (Suc (occurrences s (join sep ps))) \<le> occurrences s (join sep (s # s # ps))"
    using occurrences_join_cons[OF assms(2), of sep ps]
      occurrences_join_cons[OF assms(2), of sep "s # ps"]
    by linarith
  moreover have "occurrences s (join sep (s # s # ps)) \<le>
      occurrences s (join sep (n # n # n # s # s # ps))"
    using occurrences_join_skip[of s sep "s # s # ps" n]
      occurrences_join_skip[of s sep "n # s # s # ps" n]
      occurrences_join_skip[of s sep "n # n # s # s # ps" n]
    by linarith
  ultimately show "2 \<le> occurrences s (join sep (n # n # n # s # s # ps))" by linarith
qed

lemma build_searchable_text_parts:
  assumes "get_or_empty r ''name'' = Str n" and "n \<noteq> []"
    and "get_or_empty r ''species'' = Str s" and "s \<noteq> []"
    and "get_or_empty r ''activity'' = Str a"
    and "get_or_empty r ''filename_tokens'' = Str t"
    and "get_or_empty r ''fields'' = Str f"
    and "get_or_empty r ''path'' = Str p"
  shows "build_searchable_text r =
     Inr (join '' '' (n # n # n # s # s #
            (filter (\<lambda>x. x \<noteq> []) [a, t, f] @
             (if p = [] then [] else [join '' '' (last_four (meaningful p))]))))"
  unfolding build_searchable_text_def Let_def assms(1,3,5,6,7,8)
  using assms(2,4)
  by (simp add: join_values_def numeral_3_eq_3 numeral_2_eq_2)

text \<open>
  Claim C4, as amended. For a record whose name and species are non-empty text (and
  whose activity, filename tokens, field list and path are text), the searchable
  text of \<^verbatim>\<open>prepare_index.py\<close> is the join by single spaces of: the name three
  times, the species twice, then the activity, the filename tokens and the field
  list, each once if it is non-empty and left out otherwise, then, if the path is
  non-empty, the last four meaningful path segments (non-empty, not starting with a
  dot, holding no colon) joined by spaces. So the text holds the name at least three
  times and the species at least twice; it holds them more often when they occur
  again in a later part, as the file name does in the path of its own file.
\<close>

theorem C4_weighted_text:
  assumes "get_or_empty r ''name'' = Str n" and "n \<noteq> []"
    and "get_or_empty r ''species'' = Str s" and "s \<noteq> []"
    and "get_or_empty r ''activity'' = Str a"
    and "get_or_empty r ''filename_tokens'' = Str t"
    and "get_or_empty r ''fields'' = Str f"
    and "get_or_empty r ''path'' = Str p"
  shows "\<exists>out. build_searchable_text r = Inr out \<and>
           out = join '' '' ([n, n, n, s, s] @ filter (\<lambda>x. x \<noteq> []) [a, t, f] @
                   (if p = [] then [] else [join '' '' (last_four (meaningful p))])) \<and>
           3 \<le> occurrences n out \<and> 2 \<le> occurrences s out"
proof -
  define ps where "ps = filter (\<lambda>x. x \<noteq> []) [a, t, f] @
      (if p = [] then [] else [join '' '' (last_four (meaningful p))])"
  define out where "out = join '' '' (n # n # n # s # s # ps)"
  have b: "build_searchable_text r = Inr out"
    unfolding out_def ps_def by (rule build_searchable_text_parts[OF assms])
  have e: "out = join '' '' ([n, n, n, s, s] @ filter (\<lambda>x. x \<noteq> []) [a, t, f] @
                   (if p = [] then [] else [join '' '' (last_four (meaningful p))]))"
    unfolding out_def ps_def by (simp only: append.simps)
  have o3: "3 \<le> occurrences n out"
    unfolding out_def by (rule weighted_parts_occurrences(1)[OF assms(2,4)])
  have o2: "2 \<le> occurrences s out"
    unfolding out_def by (rule weighted_parts_occurrences(2)[OF assms(2,4)])
  from b e o3 o2 show ?thesis by blast
qed

lemma example_meaningful:
  "meaningful (''C:'' @ [backslash] @ ''r//.g/s/t/u/v/a.csv'') =
     [''r'', ''s'', ''t'', ''u'', ''v'', ''a.csv'']"
  by (simp add: meaningful_def replace_char_def backslash_def starts_with_def)

lemma example_record_fields:
  "get_or_empty example_record ''name'' = Str ''a.csv''"
  "get_or_empty example_record ''species'' = Str ''eel''"
  "get_or_empty example_record ''activity'' = Str ''dive''"
  "get_or_empty example_record ''filename_tokens'' = Str ''a''"
  "get_or_empty example_record ''fields'' = Str ''id''"
  "get_or_empty example_record ''path'' = Str (''C:'' @ [backslash] @ ''r//.g/s/t/u/v/a.csv'')"
  by (simp_all add: get_or_empty_def example_record_def)

theorem C4_weighted_text_witness:
  "build_searchable_text example_record =
     Inr ''a.csv a.csv a.csv eel eel dive a id t u v a.csv''"
proof -
  have n: "''a.csv'' \<noteq> []" and s: "''eel'' \<noteq> []" by simp_all
  have p: "''C:'' @ [backslash] @ ''r//.g/s/t/u/v/a.csv'' \<noteq> []" by simp
  from C4_weighted_text[OF example_record_fields(1) n example_record_fields(2) s
      example_record_fields(3-6)]
  obtain out where o: "build_searchable_text example_record = Inr out"
    and e: "out = join '' '' ([''a.csv'', ''a.csv'', ''a.csv'', ''eel'', ''eel''] @
                   filter (\<lambda>x. x \<noteq> []) [''dive'', ''a'', ''id''] @
                   (if ''C:'' @ [backslash] @ ''r//.g/s/t/u/v/a.csv'' = [] then []
                    else [join '' '' (last_four (meaningful
                            (''C:'' @ [backslash] @ ''r//.g/s/t/u/v/a.csv'')))]))"
    by (elim exE conjE)
  have "out = ''a.csv a.csv a.csv eel eel dive a id t u v a.csv''"
    unfolding e example_meaningful by (simp add: last_four_def)
  with o show ?thesis by simp
qed

lemma example_v2_text:
  "build_searchable_text_v2 (example_row ''/surveys/a.csv'' ''a.csv'' ''success'' ''turtle, hawksbill'') =
     ''filename: a.csv | type: csv | reptiles: turtle, hawksbill | location: surveys''"
  by (simp add: build_searchable_text_v2_def example_row_def CATEGORIES_def folders_def
        replace_char_def backslash_def last_four_def)

theorem C4_weighted_text_counterexample:
  "(case build_searchable_text example_record of
      Inr out \<Rightarrow> occurrences ''a.csv'' out = 4 \<and> occurrences ''eel'' out = 2
    | Inl e \<Rightarrow> False) \<and>
   occurrences ''a.csv''
     (build_searchable_text_v2
        (example_row ''/surveys/a.csv'' ''a.csv'' ''success'' ''turtle, hawksbill'')) = 1"
proof -
  have o: "build_searchable_text example_record =
      Inr ''a.csv a.csv a.csv eel eel dive a id t u v a.csv''"
    using build_searchable_text_parts[OF example_record_fields(1) _ example_record_fields(2) _
        example_record_fields(3-6)]
    unfolding example_meaningful by (simp add: last_four_def)
  have a: "occurrences ''a.csv'' ''a.csv a.csv a.csv eel eel dive a id t u v a.csv'' = 4"
    by (simp add: starts_with_def)
  have b: "occurrences ''eel'' ''a.csv a.csv a.csv eel eel dive a id t u v a.csv'' = 2"
    by (simp add: starts_with_def)
  have c: "occurrences ''a.csv''
      ''filename: a.csv | type: csv | reptiles: turtle, hawksbill | location: surveys'' = 1"
    by (simp add: starts_with_def)
  show ?thesis unfolding o example_v2_text using a b c by simp
qed

lemma map_of_filter_key:
  "k \<noteq> x \<Longrightarrow> map_of (filter (\<lambda>kv. fst kv \<noteq> x) d) k = map_of d k"
  by (induction d) auto

text \<open>
  Claim C9, as amended. The records that \<^verbatim>\<open>prepare_index.py\<close> writes to
  \<^verbatim>\<open>records.json\<close> are the records it built, one for one and in order, each
  without a \<^verbatim>\<open>searchable_text\<close> item and with every other item unchanged. The
  builder \<^verbatim>\<open>build_index.py\<close> does not do this: each record it writes to
  \<^verbatim>\<open>search_index.json\<close> holds its \<^verbatim>\<open>searchable_text\<close>.
\<close>

theorem C9_persisted_records:
  "length (records_clean all_records) = length all_records \<and>
   (\<forall>i < length all_records.
      ''searchable_text'' \<notin> fst ` set (records_clean all_records ! i) \<and>
      (\<forall>k. k \<noteq> ''searchable_text'' \<longrightarrow>
           map_of (records_clean all_records ! i) k = map_of (all_records ! i) k))"
  by (auto simp: records_clean_def map_of_filter_key)

lemma example_with_text:
  "with_searchable_text example_record =
     Inr (example_record @
          [(''searchable_text'', Str ''a.csv a.csv a.csv eel eel dive a id t u v a.csv'')])"
proof -
  have o: "build_searchable_text example_record =
      Inr ''a.csv a.csv a.csv eel eel dive a id t u v a.csv''"
    using build_searchable_text_parts[OF example_record_fields(1) _ example_record_fields(2) _
        example_record_fields(3-6)]
    unfolding example_meaningful by (simp add: last_four_def)
  show ?thesis
    unfolding with_searchable_text_def o by (simp add: example_record_def)
qed

theorem C9_persisted_records_witness:
  "(case with_searchable_text example_record of
      Inr d \<Rightarrow>
        map_of d ''searchable_text'' =
          Some (Str ''a.csv a.csv a.csv eel eel dive a id t u v a.csv'') \<and>
        ''searchable_text'' \<notin> fst ` set (records_clean [d] ! 0) \<and>
        records_clean [d] = [example_record]
    | Inl e \<Rightarrow> False)"
proof -
  define d where "d = example_record @
      [(''searchable_text'', Str ''a.csv a.csv a.csv eel eel dive a id t u v a.csv'')]"
  have w: "with_searchable_text example_record = Inr d"
    unfolding d_def by (rule example_with_text)
  have m: "map_of d ''searchable_text'' =
      Some (Str ''a.csv a.csv a.csv eel eel dive a id t u v a.csv'')"
    by (simp add: d_def example_record_def)
  have c: "records_clean [d] = [example_record]"
    by (simp add: d_def records_clean_def example_record_def)
  have "''searchable_text'' \<notin> fst ` set (records_clean [d] ! 0)"
    using C9_persisted_records[of "[d]"] by simp
  with m c show ?thesis unfolding w by simp
qed

theorem C9_persisted_records_counterexample:
  "map (\<lambda>d. map_of d ''searchable_text'')
     (json_records (build_index_main example_encode
        [example_row ''/surveys/a.csv'' ''a.csv'' ''success'' ''turtle, hawksbill''])) =
   [Some (Some ''filename: a.csv | type: csv | reptiles: turtle, hawksbill | location: surveys'')]"
proof -
  have s: "example_row ''/surveys/a.csv'' ''a.csv'' ''success'' ''turtle, hawksbill'' ''status'' =
      Some ''success''"
    by (simp add: example_row_def)
  show ?thesis
    unfolding build_index_main_def Let_def
    by (simp add: s build_record_def example_v2_text)
qed

lemma build_record_text:
  "map_of (build_record r) ''searchable_text'' = Some (Some (build_searchable_text_v2 r))"
  by (simp add: build_record_def)

lemma filter_options_member:
  assumes "(cat, vs) \<in> set (filter_options df_success)" and "v \<in> set vs"
  shows "\<exists>r \<in> set df_success. \<exists>val. r cat = Some val \<and> v \<in> set (map strip (split_on CHR '','' val))"
proof -
  from assms(1) have "vs = sorted_list_of_set (all_values df_success cat)"
    by (auto simp: filter_options_def)
  moreover have "finite (all_values df_success cat)"
    unfolding all_values_def by (rule finite_set)
  ultimately have "v \<in> all_values df_success cat"
    using assms(2) by simp
  then obtain r where r: "r \<in> set df_success"
    and v: "v \<in> set (case r cat of
                        Some val \<Rightarrow> if val \<noteq> [] then map strip (split_on CHR '','' val) else []
                      | None \<Rightarrow> [])"
    unfolding all_values_def by auto
  show ?thesis
  proof (cases "r cat")
    case None
    with v show ?thesis by simp
  next
    case (Some val)
    with v have "v \<in> set (map strip (split_on CHR '','' val))"
      by (simp split: if_splits)
    with r Some show ?thesis by blast
  qed
qed

text \<open>
  Claim C10. The index that \<^verbatim>\<open>build_index.py\<close> builds is the index of the rows
  with status \<^verbatim>\<open>success\<close> alone: every other row can be dropped from the scan
  table without changing a byte of the result. Every persisted record is the record
  of a success row, every filter option is a piece of a category cell of a success
  row, and the embedding matrix is the encoding of the searchable texts of the
  success rows, in their order.
\<close>

theorem C10_only_success_rows:
  "build_index_main encode df =
     build_index_main encode (filter (\<lambda>r. r ''status'' = Some ''success'') df) \<and>
   length (json_records (build_index_main encode df)) =
     length (filter (\<lambda>r. r ''status'' = Some ''success'') df) \<and>
   (\<forall>d \<in> set (json_records (build_index_main encode df)).
      \<exists>r \<in> set df. r ''status'' = Some ''success'' \<and> d = build_record r) \<and>
   (\<forall>cat vs v. (cat, vs) \<in> set (json_filters (build_index_main encode df)) \<and> v \<in> set vs \<longrightarrow>
      (\<exists>r \<in> set df. r ''status'' = Some ''success'' \<and>
         (\<exists>val. r cat = Some val \<and> v \<in> set (map strip (split_on CHR '','' val))))) \<and>
   npy_embeddings (build_index_main encode df) =
     encode (map build_searchable_text_v2 (filter (\<lambda>r. r ''status'' = Some ''success'') df))"
proof -
  define S where "S = filter (\<lambda>r. r ''status'' = Some ''success'') df"
  have SS: "filter (\<lambda>r. r ''status'' = Some ''success'') S = S"
    by (simp add: S_def)
  have m: "build_index_main encode df =
      \<lparr>json_records = map build_record S, json_categories = CATEGORIES,
       json_filters = filter_options S,
       npy_embeddings = encode (map build_searchable_text_v2 S)\<rparr>"
    by (simp add: build_index_main_def Let_def S_def build_record_text comp_def)
  have m': "build_index_main encode S =
      \<lparr>json_records = map build_record S, json_categories = CATEGORIES,
       json_filters = filter_options S,
       npy_embeddings = encode (map build_searchable_text_v2 S)\<rparr>"
    by (simp add: build_index_main_def Let_def SS build_record_text comp_def)
  have sub: "r \<in> set S \<Longrightarrow> r \<in> set df \<and> r ''status'' = Some ''success''" for r
    by (simp add: S_def)
  have c1: "build_index_main encode df = build_index_main encode S"
    by (simp add: m m')
  have c2: "length (json_records (build_index_main encode df)) = length S"
    by (simp add: m)
  have c3: "\<forall>d \<in> set (json_records (build_index_main encode df)).
      \<exists>r \<in> set df. r ''status'' = Some ''success'' \<and> d = build_record r"
    using sub by (auto simp: m)
  have c4: "\<forall>cat vs v. (cat, vs) \<in> set (json_filters (build_index_main encode df)) \<and> v \<in> set vs \<longrightarrow>
      (\<exists>r \<in> set df. r ''status'' = Some ''success'' \<and>
         (\<exists>val. r cat = Some val \<and> v \<in> set (map strip (split_on CHR '','' val))))"
  proof (intro allI impI)
    fix cat vs v
    assume "(cat, vs) \<in> set (json_filters (build_index_main encode df)) \<and> v \<in> set vs"
    then have "(cat, vs) \<in> set (filter_options S)" and "v \<in> set vs"
      by (simp_all add: m)
    from filter_options_member[OF this] obtain r val where
      "r \<in> set S" and "r cat = Some val" and "v \<in> set (map strip (split_on CHR '','' val))"
      by blast
    with sub[of r] show "\<exists>r \<in> set df. r ''status'' = Some ''success'' \<and>
         (\<exists>val. r cat = Some val \<and> v \<in> set (map strip (split_on CHR '','' val)))"
      by blast
  qed
  have c5: "npy_embeddings (build_index_main encode df) = encode (map build_searchable_text_v2 S)"
    by (simp add: m)
  from c1 c2 c3 c4 c5 show ?thesis unfolding S_def by blast
qed

lemma example_success_rows:
  "filter (\<lambda>r. r ''status'' = Some ''success'') example_frame =
     [example_row ''/surveys/a.csv'' ''a.csv'' ''success'' ''turtle, hawksbill'',
      example_row ''/surveys/c.csv'' ''c.csv'' ''success'' ''turtle'']"
  by (simp add: example_frame_def example_row_def)

lemma example_reptile_values:
  "all_values
     [example_row ''/surveys/a.csv'' ''a.csv'' ''success'' ''turtle, hawksbill'',
      example_row ''/surveys/c.csv'' ''c.csv'' ''success'' ''turtle''] ''reptiles'' =
   set [''turtle'', ''hawksbill'']"
  by (simp add: all_values_def example_row_def strip_def is_space_def code_point_def insert_commute)

lemma example_shark_values:
  "all_values
     [example_row ''/surveys/a.csv'' ''a.csv'' ''success'' ''turtle, hawksbill'',
      example_row ''/surveys/c.csv'' ''c.csv'' ''success'' ''turtle''] ''sharks_rays'' = {}"
  by (simp add: all_values_def example_row_def)

lemma example_v2_text_c:
  "build_searchable_text_v2 (example_row ''/surveys/c.csv'' ''c.csv'' ''success'' ''turtle'') =
     ''filename: c.csv | type: csv | reptiles: turtle | location: surveys''"
  by (simp add: build_searchable_text_v2_def example_row_def CATEGORIES_def folders_def
        replace_char_def backslash_def last_four_def)

theorem C10_only_success_rows_witness:
  "map (\<lambda>d. map_of d ''file_name'') (json_records (build_index_main example_encode example_frame)) =
     [Some (Some ''a.csv''), Some (Some ''c.csv'')] \<and>
   map_of (json_filters (build_index_main example_encode example_frame)) ''reptiles'' =
     Some [''hawksbill'', ''turtle''] \<and>
   npy_embeddings (build_index_main example_encode example_frame) =
     example_encode
       [''filename: a.csv | type: csv | reptiles: turtle, hawksbill | location: surveys'',
        ''filename: c.csv | type: csv | reptiles: turtle | location: surveys'']"
proof -
  let ?S = "[example_row ''/surveys/a.csv'' ''a.csv'' ''success'' ''turtle, hawksbill'',
      example_row ''/surveys/c.csv'' ''c.csv'' ''success'' ''turtle'']"
  have e: "build_index_main example_encode example_frame = build_index_main example_encode ?S"
    using C10_only_success_rows[of example_encode example_frame]
    unfolding example_success_rows by blast
  have SS: "filter (\<lambda>r. r ''status'' = Some ''success'') ?S = ?S"
    by (simp add: example_row_def)
  have names: "map (\<lambda>d. map_of d ''file_name'') (json_records (build_index_main example_encode ?S)) =
      [Some (Some ''a.csv''), Some (Some ''c.csv'')]"
    unfolding build_index_main_def Let_def SS
    by (simp add: build_record_def example_row_def)
  have srt: "sorted_list_of_set (set [''turtle'', ''hawksbill'']) = [''hawksbill'', ''turtle'']"
    by (simp add: sorted_list_of_set_sort_remdups less_eq_char_def less_char_def)
  have flt: "map_of (json_filters (build_index_main example_encode ?S)) ''reptiles'' =
      Some [''hawksbill'', ''turtle'']"
    unfolding build_index_main_def Let_def SS
    by (simp add: filter_options_def CATEGORIES_def example_reptile_values srt)
  have emb: "npy_embeddings (build_index_main example_encode ?S) =
      example_encode
       [''filename: a.csv | type: csv | reptiles: turtle, hawksbill | location: surveys'',
        ''filename: c.csv | type: csv | reptiles: turtle | location: surveys'']"
    unfolding build_index_main_def Let_def SS
    by (simp add: build_record_text comp_def example_v2_text example_v2_text_c)
  from names flt emb show ?thesis unfolding e by blast
qed

end
